theory Spec2Isabelle
  imports Complex_Main
begin

section \<open>FluMatch: tabulation of BLAST hits and the tab-separated report\<close>

text \<open>
  This theory embeds the two functions of \<^verbatim>\<open>flumatch.py\<close> that turn parsed BLAST
  records into the report \<^verbatim>\<open>TopBLASTHits.txt\<close>: the generator
  \<^verbatim>\<open>tabulate_hsp_xml\<close> and its consumer \<^verbatim>\<open>blast_report\<close>.
  Python integers are \<^typ>\<open>int\<close>, Python strings are \<^typ>\<open>string\<close>, Python floats
  are IEEE 754 binary64 values (type \<open>pyfloat\<close> below), and every exception the two
  functions can raise on well-typed records is a value of type \<open>error\<close>.
\<close>

subsection \<open>Exceptions\<close>

datatype error = IndexError | ZeroDivisionError | OverflowError

subsection \<open>Python floats: IEEE 754 binary64\<close>

text \<open>
  A finite double is kept as the rational number it denotes; the negative zero, the two
  infinities and the not-a-number value are constructors of their own. \<open>Finite 0\<close> is
  the positive zero.
\<close>

datatype pyfloat = Finite rat | NegZero | PosInf | NegInf | NaN

text \<open>
  \<open>floor_log2 p\<close> is the position of the highest set bit of a positive integer:
  \<open>2^(floor_log2 p) \<le> p < 2^(floor_log2 p + 1)\<close>.
\<close>

function floor_log2 :: "int \<Rightarrow> int" where
  "floor_log2 p = (if p \<le> 1 then 0 else 1 + floor_log2 (p div 2))"
  by pat_completeness auto
termination
  by (relation "measure nat") auto

declare floor_log2.simps [simp del]

text \<open>
  \<open>binary_exponent x\<close> is the exponent \<open>e\<close> with \<open>2^e \<le> x < 2^(e+1)\<close> of a positive
  rational \<open>x\<close>: the highest bit of its integer part when \<open>1 \<le> x\<close>, and otherwise
  found from the reciprocal, for which \<open>2^(-e-1) < 1/x \<le> 2^(-e)\<close>.
\<close>

definition binary_exponent :: "rat \<Rightarrow> int" where
  "binary_exponent x =
     (if 1 \<le> x then floor_log2 \<lfloor>x\<rfloor>
      else - (floor_log2 (\<lceil>1 / x\<rceil> - 1) + 1))"

text \<open>Rounding to the nearest integer, ties to the even one.\<close>

definition round_half_even :: "rat \<Rightarrow> int" where
  "round_half_even z =
     (let f = \<lfloor>z\<rfloor>; d = z - of_int f
      in if d < 1 / 2 then f
         else if 1 / 2 < d then f + 1
         else if even f then f else f + 1)"

text \<open>
  \<open>round_double x\<close> is the double nearest to the exact result \<open>x\<close> (round to nearest,
  ties to even): 53 significant bits, the exponent of a normal number at least \<open>-1022\<close>
  (below that the spacing stays \<open>2^-1074\<close>: subnormal numbers), overflow to an infinity
  when the rounded magnitude reaches \<open>2^1024\<close> (its binary exponent is 1024 or more),
  and a result that rounds to zero keeps the sign of \<open>x\<close>.
\<close>

definition round_double :: "rat \<Rightarrow> pyfloat" where
  "round_double x =
     (if x = 0 then Finite 0
      else
        let e = max (binary_exponent \<bar>x\<bar>) (- 1022);
            q = 2 powi (e - 52);
            m = of_int (round_half_even (x / q)) * q
        in if 1024 \<le> binary_exponent \<bar>m\<bar> then (if 0 < x then PosInf else NegInf)
           else if m = 0 then (if 0 < x then Finite 0 else NegZero)
           else Finite m)"

text \<open>
  Conversion of a Python int to a float (\<^verbatim>\<open>PyLong_AsDouble\<close>): correctly rounded,
  and \<^verbatim>\<open>OverflowError\<close> when the int is too large for a double.
\<close>

definition float_of_int :: "int \<Rightarrow> error + pyfloat" where
  "float_of_int i =
     (case round_double (of_int i) of
        PosInf \<Rightarrow> Inl OverflowError
      | NegInf \<Rightarrow> Inl OverflowError
      | y \<Rightarrow> Inr y)"

fun is_zero :: "pyfloat \<Rightarrow> bool" where
  "is_zero (Finite r) = (r = 0)"
| "is_zero NegZero = True"
| "is_zero _ = False"

fun is_inf :: "pyfloat \<Rightarrow> bool" where
  "is_inf PosInf = True"
| "is_inf NegInf = True"
| "is_inf _ = False"

fun sign_bit :: "pyfloat \<Rightarrow> bool" where
  "sign_bit (Finite r) = (r < 0)"
| "sign_bit NegZero = True"
| "sign_bit NegInf = True"
| "sign_bit _ = False"

fun rat_of_float :: "pyfloat \<Rightarrow> rat" where
  "rat_of_float (Finite r) = r"
| "rat_of_float _ = 0"

text \<open>IEEE multiplication, as Python's \<^verbatim>\<open>float.__mul__\<close> on two floats.\<close>

definition float_mul :: "pyfloat \<Rightarrow> pyfloat \<Rightarrow> pyfloat" where
  "float_mul a b =
     (if a = NaN \<or> b = NaN then NaN
      else if (is_inf a \<and> is_zero b) \<or> (is_zero a \<and> is_inf b) then NaN
      else if is_inf a \<or> is_inf b
        then (if sign_bit a \<noteq> sign_bit b then NegInf else PosInf)
      else if is_zero a \<or> is_zero b
        then (if sign_bit a \<noteq> sign_bit b then NegZero else Finite 0)
      else round_double (rat_of_float a * rat_of_float b))"

text \<open>
  Python's \<^verbatim>\<open>float.__truediv__\<close> on two floats: a zero divisor of either sign raises
  \<^verbatim>\<open>ZeroDivisionError\<close> before anything else is looked at; otherwise IEEE division.
\<close>

definition float_truediv :: "pyfloat \<Rightarrow> pyfloat \<Rightarrow> error + pyfloat" where
  "float_truediv a b =
     (if is_zero b then Inl ZeroDivisionError
      else Inr
        (if a = NaN \<or> b = NaN then NaN
         else if is_inf a \<and> is_inf b then NaN
         else if is_inf a
           then (if sign_bit a \<noteq> sign_bit b then NegInf else PosInf)
         else if is_inf b \<or> is_zero a
           then (if sign_bit a \<noteq> sign_bit b then NegZero else Finite 0)
         else round_double (rat_of_float a / rat_of_float b)))"

text \<open>Python's \<^verbatim>\<open>abs\<close> on a float clears the sign.\<close>

fun float_abs :: "pyfloat \<Rightarrow> pyfloat" where
  "float_abs (Finite r) = Finite \<bar>r\<bar>"
| "float_abs NegZero = Finite 0"
| "float_abs PosInf = PosInf"
| "float_abs NegInf = PosInf"
| "float_abs NaN = NaN"

text \<open>Python's comparison \<^verbatim>\<open>a <= b\<close> on floats; every comparison with NaN is false.\<close>

fun float_le :: "pyfloat \<Rightarrow> pyfloat \<Rightarrow> bool" where
  "float_le NaN _ = False"
| "float_le _ NaN = False"
| "float_le NegInf _ = True"
| "float_le _ PosInf = True"
| "float_le PosInf _ = False"
| "float_le _ NegInf = False"
| "float_le a b = (rat_of_float a \<le> rat_of_float b)"

text \<open>
  The mixed operations of the source, \<^verbatim>\<open>x * i\<close> and \<^verbatim>\<open>x / i\<close> with a float \<open>x\<close> and
  an int \<open>i\<close>: the int is converted first (which may raise), then the float operation
  runs.
\<close>

definition float_mul_int :: "pyfloat \<Rightarrow> int \<Rightarrow> error + pyfloat" where
  "float_mul_int x i =
     (case float_of_int i of Inl e \<Rightarrow> Inl e | Inr y \<Rightarrow> Inr (float_mul x y))"

definition float_truediv_int :: "pyfloat \<Rightarrow> int \<Rightarrow> error + pyfloat" where
  "float_truediv_int x i =
     (case float_of_int i of Inl e \<Rightarrow> Inl e | Inr y \<Rightarrow> float_truediv x y)"

subsection \<open>The parsed BLAST records\<close>

text \<open>
  The objects the generator reads, as Biopython's \<^verbatim>\<open>NCBIXML\<close> parser builds them,
  with the attributes the source uses: an HSP (one local alignment), an alignment (one
  database hit with its HSPs) and a record (one query with its hits). The attribute
  \<^verbatim>\<open>length\<close> of an alignment is the field \<open>length_aln\<close> here.
\<close>

record hsp =
  identities :: int
  align_length :: int
  query_start :: int
  query_end :: int
  sbjct_start :: int
  sbjct_end :: int
  expect :: pyfloat

record alignment =
  hit_def :: string
  length_aln :: int
  hsps :: "hsp list"

record blast_record =
  query :: string
  query_length :: int
  alignments :: "alignment list"

text \<open>
  The tuple the generator yields, in the order of the source: query, strain, query_cov,
  identity_perc, identities, align_length, query_start, query_end, sbjct_start,
  sbjct_end, query_length, strain_length, e_value.
\<close>

type_synonym metric_row =
  "string \<times> string \<times> pyfloat \<times> pyfloat \<times> int \<times> int \<times> int \<times> int \<times> int \<times> int \<times> int \<times> int \<times> pyfloat"

definition row_query_cov :: "metric_row \<Rightarrow> pyfloat" where
  "row_query_cov row = fst (snd (snd row))"

definition row_identity_perc :: "metric_row \<Rightarrow> pyfloat" where
  "row_identity_perc row = fst (snd (snd (snd row)))"

subsection \<open>The generator \<^verbatim>\<open>tabulate_hsp_xml\<close>\<close>

text \<open>
  A generator object is the sequence of values it yields, ended by its return
  (\<open>StopIteration\<close>) or by the exception that escapes from its body.
\<close>

datatype 'a generator = StopIteration | Raise error | Yield 'a "'a generator"

fun rows_of :: "'a generator \<Rightarrow> 'a list" where
  "rows_of StopIteration = []"
| "rows_of (Raise e) = []"
| "rows_of (Yield x g) = x # rows_of g"

fun outcome :: "'a generator \<Rightarrow> error option" where
  "outcome StopIteration = None"
| "outcome (Raise e) = Some e"
| "outcome (Yield x g) = outcome g"

text \<open>
  The slice \<^verbatim>\<open>xs[0:n]\<close> of a Python list: a negative \<open>n\<close> counts from the end, and
  both ends are clamped to the list.
\<close>

definition slice_to :: "'a list \<Rightarrow> int \<Rightarrow> 'a list" where
  "slice_to xs n =
     (if n < 0 then take (nat (int (length xs) + n)) xs else take (nat n) xs)"

text \<open>
  The body of the inner loop (lines 75 to 117) for one record and one alignment:
  \<^verbatim>\<open>aln.hsps[0]\<close> raises \<^verbatim>\<open>IndexError\<close> on an empty list, the two percentages are
  computed in the order of the source, identity first, and the tuple is built.
\<close>

definition loop_body :: "blast_record \<Rightarrow> alignment \<Rightarrow> error + metric_row" where
  "loop_body res aln =
     (case hsps aln of
        [] \<Rightarrow> Inl IndexError
      | hsp # _ \<Rightarrow>
        (case float_mul_int (Finite 100) (identities hsp) of
           Inl e \<Rightarrow> Inl e
         | Inr t1 \<Rightarrow>
           (case float_truediv_int t1 (align_length hsp) of
              Inl e \<Rightarrow> Inl e
            | Inr identity_perc \<Rightarrow>
              (case float_mul_int (Finite 100) (align_length hsp) of
                 Inl e \<Rightarrow> Inl e
               | Inr t2 \<Rightarrow>
                 (case float_truediv_int t2 (query_length res) of
                    Inl e \<Rightarrow> Inl e
                  | Inr c \<Rightarrow>
                    Inr (query res, hit_def aln, float_abs c, identity_perc,
                         identities hsp, align_length hsp, query_start hsp, query_end hsp,
                         sbjct_start hsp, sbjct_end hsp, query_length res, length_aln aln,
                         expect hsp))))))"

text \<open>
  The inner loop over the sliced alignments of one record; \<open>k\<close> is what the generator
  does after this loop (the rest of the outer loop). An exception ends the generator.
\<close>

fun for_aln :: "blast_record \<Rightarrow> alignment list \<Rightarrow> metric_row generator \<Rightarrow> metric_row generator" where
  "for_aln res [] k = k"
| "for_aln res (aln # alns) k =
     (case loop_body res aln of
        Inl e \<Rightarrow> Raise e
      | Inr row \<Rightarrow> Yield row (for_aln res alns k))"

fun tabulate_hsp_xml :: "blast_record list \<Rightarrow> int \<Rightarrow> metric_row generator" where
  "tabulate_hsp_xml [] num_top_results = StopIteration"
| "tabulate_hsp_xml (res # result) num_top_results =
     for_aln res (slice_to (alignments res) num_top_results)
       (tabulate_hsp_xml result num_top_results)"

subsection \<open>The report: \<^verbatim>\<open>csv.writer\<close> with a tab delimiter\<close>

text \<open>
  A value handed to \<^verbatim>\<open>writerow\<close> is a string, an int or a float. The writer turns a
  number into text with \<^verbatim>\<open>str\<close>: decimal digits for an int, and for a float its
  \<^verbatim>\<open>repr\<close>, which the model takes as the parameter \<open>repr_float\<close>.
\<close>

datatype cell = StrV string | IntV int | FloatV pyfloat

function digits :: "int \<Rightarrow> string" where
  "digits n =
     (if n < 10 then [''0123456789'' ! nat n]
      else digits (n div 10) @ [''0123456789'' ! nat (n mod 10)])"
  by pat_completeness auto
termination
  by (relation "measure nat") auto

declare digits.simps [simp del]

definition str_int :: "int \<Rightarrow> string" where
  "str_int i = (if i < 0 then CHR ''-'' # digits (- i) else digits i)"

fun str_cell :: "(pyfloat \<Rightarrow> string) \<Rightarrow> cell \<Rightarrow> string" where
  "str_cell repr_float (StrV s) = s"
| "str_cell repr_float (IntV i) = str_int i"
| "str_cell repr_float (FloatV x) = repr_float x"

definition cells_of_row :: "metric_row \<Rightarrow> cell list" where
  "cells_of_row row =
     (case row of
        (q, strain, query_cov, identity_perc, ids, alen, qstart, qend, sstart, send, qlen,
         strain_length, e_value) \<Rightarrow>
        [StrV q, StrV strain, FloatV query_cov, FloatV identity_perc, IntV ids, IntV alen,
         IntV qstart, IntV qend, IntV sstart, IntV send, IntV qlen, IntV strain_length,
         FloatV e_value])"

text \<open>
  The dialect is \<^verbatim>\<open>excel\<close> with the delimiter replaced by a tab: minimal quoting, the
  quote character \<^verbatim>\<open>"\<close> doubled inside a quoted field, and \<^verbatim>\<open>\r\n\<close> after each
  record. A field is quoted when it holds the delimiter, the quote character or a
  character of the line terminator.
\<close>

definition tab :: char where "tab = CHR 0x09"
definition dquote :: char where "dquote = CHR 0x22"
definition lineterminator :: string where "lineterminator = [CHR 0x0D, CHR 0x0A]"

definition needs_quotes :: "string \<Rightarrow> bool" where
  "needs_quotes s = list_ex (\<lambda>c. c = tab \<or> c = dquote \<or> c \<in> set lineterminator) s"

definition quote_field :: "string \<Rightarrow> string" where
  "quote_field s =
     (if needs_quotes s
      then dquote # concat (map (\<lambda>c. if c = dquote then [dquote, dquote] else [c]) s) @ [dquote]
      else s)"

fun join :: "char \<Rightarrow> string list \<Rightarrow> string" where
  "join d [] = []"
| "join d [s] = s"
| "join d (s # ss) = s @ d # join d ss"

text \<open>
  The text one call of \<^verbatim>\<open>writerow\<close> writes. A record of one empty field is written
  as a pair of quotes.
\<close>

definition writerow :: "string list \<Rightarrow> string" where
  "writerow strs =
     (let r = join tab (map quote_field strs)
      in (if strs \<noteq> [] \<and> r = [] then [dquote, dquote] else r) @ lineterminator)"

definition headers :: "string list" where
  "headers =
     [''Query'', ''Matching Strain'', ''Query Coverage'', ''Percent ID'', ''Identities'',
      ''Alignment Length'', ''Query Start'', ''Query End'', ''Subject Start'',
      ''Subject End'', ''Query Length'', ''Strain Length'', ''e-value'']"

text \<open>
  The loop of \<^verbatim>\<open>blast_report\<close> that drains the generator: each yielded tuple is
  written before the next one is asked for; \<open>f\<close> is the text written to the file so
  far. An exception of the generator leaves the loop with the file as it is.
\<close>

fun write_rows :: "(pyfloat \<Rightarrow> string) \<Rightarrow> metric_row generator \<Rightarrow> string \<Rightarrow> string \<times> error option" where
  "write_rows repr_float StopIteration f = (f, None)"
| "write_rows repr_float (Raise e) f = (f, Some e)"
| "write_rows repr_float (Yield row g) f =
     write_rows repr_float g (f @ writerow (map (str_cell repr_float) (cells_of_row row)))"

text \<open>
  \<^verbatim>\<open>blast_report\<close>: the file at \<open>reportpath\<close> is opened for writing (created, or
  emptied when it exists), the header is written, then the rows; leaving the
  \<^verbatim>\<open>with\<close> block closes the file, also when an exception passes through. The file
  system is a map from paths to the text of each file, the text being the characters
  handed to the file object (a POSIX system stores them unchanged); the result is the new
  file system and the exception that escaped, if any. Failures of the file system itself
  are outside the model.
\<close>

definition blast_report ::
  "(pyfloat \<Rightarrow> string) \<Rightarrow> (string \<rightharpoonup> string) \<Rightarrow> string \<Rightarrow> blast_record list \<Rightarrow> int
     \<Rightarrow> (string \<rightharpoonup> string) \<times> error option" where
  "blast_report repr_float fs reportpath result num_top_results =
     (case write_rows repr_float (tabulate_hsp_xml result num_top_results) (writerow headers) of
        (f, r) \<Rightarrow> (fs(reportpath \<mapsto> f), r))"

text \<open>
  Python's \<^verbatim>\<open>s.split(c)\<close> for a one-character separator, used to read a written
  record back.
\<close>

fun split_on :: "char \<Rightarrow> string \<Rightarrow> string list" where
  "split_on c [] = [[]]"
| "split_on c (x # xs) =
     (if x = c then [] # split_on c xs
      else (case split_on c xs of [] \<Rightarrow> [[x]] | w # ws \<Rightarrow> (x # w) # ws))"


subsection \<open>Runs of a generator\<close>

text \<open>
  A consumer such as the \<^verbatim>\<open>for\<close> loop of \<^verbatim>\<open>blast_report\<close> calls \<^verbatim>\<open>next\<close> until the
  generator ends. \<open>iterates g xs r\<close>: such a run of \<open>g\<close> receives the values \<open>xs\<close>, in
  this order, and ends normally (\<open>r = None\<close>) or with the exception \<open>r = Some e\<close>.
\<close>

inductive iterates :: "'a generator \<Rightarrow> 'a list \<Rightarrow> error option \<Rightarrow> bool" where
  stop: "iterates StopIteration [] None"
| raise: "iterates (Raise e) [] (Some e)"
| yield: "iterates g xs r \<Longrightarrow> iterates (Yield x g) (x # xs) r"

code_pred iterates .

subsection \<open>Example records\<close>

text \<open>
  The records of the scenarios: a segment with 95 identical positions over an alignment
  length of 100 and coordinates 1 to 100 on both sequences, against a query of length
  100; a hit whose first segment has the alignment length 0; one whose alignment length
  is negative; and a hit without segments.
\<close>

definition scenario_hsp :: hsp where
  "scenario_hsp = \<lparr>identities = 95, align_length = 100, query_start = 1, query_end = 100,
     sbjct_start = 1, sbjct_end = 100, expect = Finite 0\<rparr>"

definition scenario_aln :: "string \<Rightarrow> alignment" where
  "scenario_aln name = \<lparr>hit_def = name, length_aln = 2341, hsps = [scenario_hsp]\<rparr>"

definition scenario_rec :: "string \<Rightarrow> alignment list \<Rightarrow> blast_record" where
  "scenario_rec name alns = \<lparr>query = name, query_length = 100, alignments = alns\<rparr>"

definition scenario_row :: "string \<Rightarrow> string \<Rightarrow> metric_row" where
  "scenario_row q name =
     (q, name, Finite 100, Finite 95, 95, 100, 1, 100, 1, 100, 100, 2341, Finite 0)"

definition zero_length_aln :: alignment where
  "zero_length_aln =
     \<lparr>hit_def = ''strain_0'', length_aln = 2341,
      hsps = [scenario_hsp\<lparr>identities := 0, align_length := 0\<rparr>]\<rparr>"

definition negative_length_aln :: alignment where
  "negative_length_aln =
     \<lparr>hit_def = ''strain_neg'', length_aln = 2341,
      hsps = [scenario_hsp\<lparr>align_length := - 100\<rparr>]\<rparr>"

definition no_hsp_aln :: alignment where
  "no_hsp_aln = \<lparr>hit_def = ''strain_none'', length_aln = 2341, hsps = []\<rparr>"

text \<open>
  Python's \<^verbatim>\<open>repr\<close> of the floats that occur in the examples, the whole numbers below
  \<open>10^16\<close> and the special values; it instantiates the parameter \<open>repr_float\<close> there.
\<close>

definition repr_float_whole :: "pyfloat \<Rightarrow> string" where
  "repr_float_whole x =
     (case x of
        Finite r \<Rightarrow> str_int \<lfloor>r\<rfloor> @ ''.0''
      | NegZero \<Rightarrow> ''-0.0''
      | PosInf \<Rightarrow> ''inf''
      | NegInf \<Rightarrow> ''-inf''
      | NaN \<Rightarrow> ''nan'')"

text \<open>
  Scenario B: one query with three hits. The other records put a failing hit between two
  good ones, or have the query length 0; they stand in a second query that is followed by
  a third.
\<close>

definition scenario_B :: "blast_record list" where
  "scenario_B =
     [scenario_rec ''contig_1''
        [scenario_aln ''strain_1'', scenario_aln ''strain_2'', scenario_aln ''strain_3'']]"

definition zero_length_rec :: blast_record where
  "zero_length_rec =
     scenario_rec ''contig_2'' [scenario_aln ''strain_4'', zero_length_aln, scenario_aln ''strain_5'']"

definition zero_query_rec :: blast_record where
  "zero_query_rec =
     \<lparr>query = ''contig_2'', query_length = 0, alignments = [scenario_aln ''strain_4'']\<rparr>"

definition no_hsp_rec :: blast_record where
  "no_hsp_rec =
     scenario_rec ''contig_2'' [scenario_aln ''strain_4'', no_hsp_aln, scenario_aln ''strain_5'']"

definition negative_length_rec :: blast_record where
  "negative_length_rec = scenario_rec ''contig_2'' [negative_length_aln]"

definition later_recs :: "blast_record list" where
  "later_recs = [scenario_rec ''contig_3'' [scenario_aln ''strain_6'']]"

definition negative_length_row :: metric_row where
  "negative_length_row =
     (''contig_2'', ''strain_neg'', Finite 100, Finite (- 95), 95, - 100, 1, 100, 1, 100, 100,
      2341, Finite 0)"

text \<open>
  A hit with as many identical positions as the alignment is long, and a record whose
  lengths are too large for the product with 100 to be exact in a double.
\<close>

definition huge_hsp :: hsp where
  "huge_hsp = scenario_hsp\<lparr>identities := 877329965204690300, align_length := 877329965204690300\<rparr>"

definition huge_rec :: blast_record where
  "huge_rec =
     \<lparr>query = ''contig_1'', query_length = 877329965204690300,
      alignments = [\<lparr>hit_def = ''strain_1'', length_aln = 877329965204690300, hsps = [huge_hsp]\<rparr>]\<rparr>"

definition perfect_aln :: alignment where
  "perfect_aln =
     \<lparr>hit_def = ''strain_1'', length_aln = 2341, hsps = [scenario_hsp\<lparr>identities := 100\<rparr>]\<rparr>"

text \<open>A hit whose description holds a tab character.\<close>

definition tab_name :: string where
  "tab_name = ''A/duck'' @ [tab] @ ''1''"

definition tab_rec :: blast_record where
  "tab_rec = scenario_rec ''contig_1'' [scenario_aln tab_name]"

text \<open>
  The pieces between the tabs of the line written for that hit: the quoted description
  falls into two of them.
\<close>

definition tab_row_pieces :: "string list" where
  "tab_row_pieces =
     [''contig_1'', dquote # ''A/duck'', ''1'' @ [dquote], ''100.0'', ''95.0'', ''95'', ''100'',
      ''1'', ''100'', ''1'', ''100'', ''100'', ''2341'', ''0.0'']"


section \<open>Properties\<close>

subsection \<open>Rounding to a double\<close>

text \<open>
  The exponent found by \<open>binary_exponent\<close> is not above the true one, rounding to an
  integer is monotone and fixes the integers; hence a non-zero integer below \<open>2^53\<close> is a
  double, and the double nearest to a number of \<open>(0, 100]\<close> lies in \<open>[0, 100]\<close>.
\<close>

lemma floor_log2_nonneg: "0 \<le> floor_log2 p"
proof (induction p rule: floor_log2.induct)
  case (1 p)
  then show ?case by (subst floor_log2.simps) auto
qed

lemma floor_log2_lower: "1 \<le> p \<Longrightarrow> 2 ^ nat (floor_log2 p) \<le> p"
proof (induction p rule: floor_log2.induct)
  case (1 p)
  show ?case
  proof (cases "p \<le> 1")
    case True
    with "1.prems" have "p = 1" by simp
    then show ?thesis by (subst floor_log2.simps) simp
  next
    case False
    then have half: "1 \<le> p div 2" by simp
    from "1.IH" [OF False half] have ih: "2 ^ nat (floor_log2 (p div 2)) \<le> p div 2" .
    have "floor_log2 p = 1 + floor_log2 (p div 2)"
      using False by (subst floor_log2.simps) simp
    then have "nat (floor_log2 p) = Suc (nat (floor_log2 (p div 2)))"
      using floor_log2_nonneg [of "p div 2"] by simp
    then have "(2::int) ^ nat (floor_log2 p) = 2 * 2 ^ nat (floor_log2 (p div 2))" by simp
    also have "\<dots> \<le> 2 * (p div 2)" using ih by simp
    also have "\<dots> \<le> p" by simp
    finally show ?thesis .
  qed
qed

lemma binary_exponent_le: "x \<le> 2 ^ k \<Longrightarrow> binary_exponent x \<le> int k"
proof (cases "1 \<le> x")
  case True
  assume le: "x \<le> 2 ^ k"
  from True have fl: "1 \<le> \<lfloor>x\<rfloor>" by simp
  have "\<lfloor>x\<rfloor> \<le> \<lfloor>(2::rat) ^ k\<rfloor>" using le by (rule floor_mono)
  also have "\<lfloor>(2::rat) ^ k\<rfloor> = 2 ^ k" by (metis floor_of_int of_int_numeral of_int_power)
  finally have "\<lfloor>x\<rfloor> \<le> 2 ^ k" .
  with floor_log2_lower [OF fl] have "(2::int) ^ nat (floor_log2 \<lfloor>x\<rfloor>) \<le> 2 ^ k"
    by (rule order_trans)
  then have "nat (floor_log2 \<lfloor>x\<rfloor>) \<le> k" by simp
  then show ?thesis using True by (simp add: binary_exponent_def)
next
  case False
  then show ?thesis
    using floor_log2_nonneg [of "\<lceil>1 / x\<rceil> - 1"] by (simp add: binary_exponent_def)
qed

lemma binary_exponent_int: "1 \<le> n \<Longrightarrow> binary_exponent (of_int n) = floor_log2 n"
  by (simp add: binary_exponent_def)

lemma round_half_even_of_int [simp]: "round_half_even (of_int k) = k"
  by (simp add: round_half_even_def)

lemma round_half_even_le: "z \<le> of_int k \<Longrightarrow> round_half_even z \<le> k"
proof -
  assume le: "z \<le> of_int k"
  show ?thesis
  proof (cases "z = of_int k")
    case True
    then show ?thesis by simp
  next
    case False
    with le have "z < of_int k" by simp
    then have "\<lfloor>z\<rfloor> < k" by (simp add: floor_less_iff)
    then show ?thesis by (simp add: round_half_even_def Let_def)
  qed
qed

lemma round_half_even_ge: "of_int k \<le> z \<Longrightarrow> k \<le> round_half_even z"
proof -
  assume "of_int k \<le> z"
  then have "k \<le> \<lfloor>z\<rfloor>" by (simp add: le_floor_iff)
  then show ?thesis by (simp add: round_half_even_def Let_def)
qed

lemma round_double_eq:
  assumes "x \<noteq> 0" and e: "e = max (binary_exponent \<bar>x\<bar>) (- 1022)" and q: "q = 2 powi (e - 52)"
    and m: "m = of_int (round_half_even (x / q)) * q"
  shows "round_double x =
     (if 1024 \<le> binary_exponent \<bar>m\<bar> then (if 0 < x then PosInf else NegInf)
      else if m = 0 then (if 0 < x then Finite 0 else NegZero)
      else Finite m)"
  unfolding round_double_def Let_def m q e using assms(1) by (simp only: if_False)

lemma powi_below_52:
  assumes "e \<le> 52"
  shows "(2::rat) powi (e - 52) = 1 / 2 ^ nat (52 - e)"
proof -
  have "(2::rat) powi (e - 52) = inverse 2 ^ nat (52 - e)"
    using assms by (cases "e = 52") (simp_all add: power_int_def)
  also have "\<dots> = (1 / 2) ^ nat (52 - e)" by (simp only: inverse_eq_divide)
  also have "\<dots> = 1 / 2 ^ nat (52 - e)" by (rule power_one_over)
  finally show ?thesis .
qed

lemma round_double_of_int:
  assumes "n \<noteq> 0" and "\<bar>n\<bar> < 2 ^ 53"
  shows "round_double (of_int n) = Finite (of_int n)"
proof -
  let ?x = "of_int n :: rat"
  have one: "1 \<le> \<bar>n\<bar>" using assms(1) by simp
  define e where "e = floor_log2 \<bar>n\<bar>"
  have "binary_exponent (of_int \<bar>n\<bar>) = e"
    unfolding e_def using one by (rule binary_exponent_int)
  then have be: "binary_exponent \<bar>?x\<bar> = e" by simp
  have e0: "0 \<le> e" by (simp add: e_def floor_log2_nonneg)
  have "(2::int) ^ nat e \<le> \<bar>n\<bar>" unfolding e_def using one by (rule floor_log2_lower)
  then have "(2::int) ^ nat e < 2 ^ 53" using assms(2) by (rule le_less_trans)
  then have "nat e < 53" by (rule power_less_imp_less_exp [rotated]) simp
  then have e52: "e \<le> 52" by simp
  define j where "j = nat (52 - e)"
  have q: "(2::rat) powi (e - 52) = 1 / 2 ^ j"
    unfolding j_def using e52 by (rule powi_below_52)
  have emax: "e = max (binary_exponent \<bar>?x\<bar>) (- 1022)" using e0 be by simp
  have "?x / (1 / 2 ^ j) = of_int (n * 2 ^ j)" by simp
  then have "round_half_even (?x / (1 / 2 ^ j)) = n * 2 ^ j"
    by (simp only: round_half_even_of_int)
  then have m: "?x = of_int (round_half_even (?x / (1 / 2 ^ j))) * (1 / 2 ^ j)" by simp
  have x0: "?x \<noteq> 0" using assms(1) by simp
  have "round_double ?x =
     (if 1024 \<le> binary_exponent \<bar>?x\<bar> then (if 0 < ?x then PosInf else NegInf)
      else if ?x = 0 then (if 0 < ?x then Finite 0 else NegZero)
      else Finite ?x)"
    by (rule round_double_eq [OF x0 emax q [symmetric] m])
  then show ?thesis using be e52 x0 by simp
qed

lemma round_double_le_100:
  assumes "0 < x" and "x \<le> 100"
  shows "\<exists>m. round_double x = Finite m \<and> 0 \<le> m \<and> m \<le> 100"
proof -
  define e where "e = max (binary_exponent \<bar>x\<bar>) (- 1022)"
  have "x \<le> 2 ^ 7" using assms(2) by simp
  then have "binary_exponent \<bar>x\<bar> \<le> 7" using binary_exponent_le [of "\<bar>x\<bar>" 7] assms(1) by simp
  then have e52: "e \<le> 52" by (simp add: e_def)
  define j where "j = nat (52 - e)"
  have q: "(2::rat) powi (e - 52) = 1 / 2 ^ j"
    unfolding j_def using e52 by (rule powi_below_52)
  define n where "n = round_half_even (x / (1 / 2 ^ j))"
  define m where "m = of_int n * (1 / 2 ^ j :: rat)"
  have "x / (1 / 2 ^ j) \<le> of_int (100 * 2 ^ j)" using assms(2) by simp
  then have n_le: "n \<le> 100 * 2 ^ j" unfolding n_def by (rule round_half_even_le)
  have "of_int 0 \<le> x / (1 / 2 ^ j)" using assms(1) by simp
  then have n_ge: "0 \<le> n" unfolding n_def by (rule round_half_even_ge)
  have m0: "0 \<le> m" using n_ge by (simp add: m_def)
  have "(of_int n :: rat) \<le> of_int (100 * 2 ^ j)" using n_le by (simp only: of_int_le_iff)
  then have m100: "m \<le> 100" by (simp add: m_def field_simps)
  have "\<bar>m\<bar> \<le> 2 ^ 7" using m0 m100 by simp
  then have novf: "\<not> 1024 \<le> binary_exponent \<bar>m\<bar>"
    using binary_exponent_le [of "\<bar>m\<bar>" 7] by simp
  have x0: "x \<noteq> 0" using assms(1) by simp
  have "round_double x =
     (if 1024 \<le> binary_exponent \<bar>m\<bar> then (if 0 < x then PosInf else NegInf)
      else if m = 0 then (if 0 < x then Finite 0 else NegZero)
      else Finite m)"
    by (rule round_double_eq [OF x0 e_def q [symmetric]]) (simp only: m_def n_def)
  then have "round_double x = (if m = 0 then Finite 0 else Finite m)"
    using novf assms(1) by simp
  then show ?thesis using m0 m100 by auto
qed

lemma round_double_zero [simp]: "round_double 0 = Finite 0"
  by (simp add: round_double_def)

lemma round_double_not_NaN [simp]: "round_double x \<noteq> NaN"
  by (simp add: round_double_def Let_def)


text \<open>
  The definitions round as their names say: \<open>binary_exponent\<close> is the exponent of its
  argument, \<open>round_half_even\<close> is within one half of its argument, and a finite result of
  \<open>round_double\<close> is a multiple of the spacing of the doubles at the exponent of \<open>x\<close>,
  within half a spacing of \<open>x\<close>.
\<close>

lemma floor_log2_upper: "1 \<le> p \<Longrightarrow> p < 2 ^ Suc (nat (floor_log2 p))"
proof (induction p rule: floor_log2.induct)
  case (1 p)
  show ?case
  proof (cases "p \<le> 1")
    case True
    with "1.prems" have "p = 1" by simp
    then show ?thesis by (subst floor_log2.simps) simp
  next
    case False
    then have half: "1 \<le> p div 2" by simp
    from "1.IH" [OF False half] have ih: "p div 2 < 2 ^ Suc (nat (floor_log2 (p div 2)))" .
    have "floor_log2 p = 1 + floor_log2 (p div 2)"
      using False by (subst floor_log2.simps) simp
    then have e: "nat (floor_log2 p) = Suc (nat (floor_log2 (p div 2)))"
      using floor_log2_nonneg [of "p div 2"] by simp
    from ih have "p div 2 + 1 \<le> 2 ^ Suc (nat (floor_log2 (p div 2)))" by simp
    then have "2 * (p div 2 + 1) \<le> 2 * 2 ^ Suc (nat (floor_log2 (p div 2)))" by simp
    moreover have "p < 2 * (p div 2 + 1)" by simp
    ultimately have "p < 2 * 2 ^ Suc (nat (floor_log2 (p div 2)))" by simp
    then show ?thesis unfolding e by simp
  qed
qed

lemma round_half_even_nearest: "\<bar>of_int (round_half_even z) - z\<bar> \<le> 1 / 2"
proof -
  have "of_int \<lfloor>z\<rfloor> \<le> z" "z < of_int \<lfloor>z\<rfloor> + 1" by linarith+
  then show ?thesis by (auto simp: round_half_even_def Let_def abs_le_iff)
qed

lemma powi_neg_nat: "(2::rat) powi (- int j) = 1 / 2 ^ j"
  by (simp add: power_int_minus inverse_eq_divide)

lemma binary_exponent_bounds:
  assumes "0 < x"
  shows "2 powi (binary_exponent x) \<le> x \<and> x < 2 powi (binary_exponent x + 1)"
proof (cases "1 \<le> x")
  case True
  define j where "j = nat (floor_log2 \<lfloor>x\<rfloor>)"
  have fl: "1 \<le> \<lfloor>x\<rfloor>" using True by simp
  have e: "binary_exponent x = int j"
    using True floor_log2_nonneg [of "\<lfloor>x\<rfloor>"] by (simp add: binary_exponent_def j_def)
  have "(2::int) ^ j \<le> \<lfloor>x\<rfloor>" unfolding j_def using fl by (rule floor_log2_lower)
  then have "of_int ((2::int) ^ j) \<le> (of_int \<lfloor>x\<rfloor> :: rat)" by (simp only: of_int_le_iff)
  also have "of_int \<lfloor>x\<rfloor> \<le> x" by simp
  finally have lower: "(2::rat) ^ j \<le> x" by simp
  have "\<lfloor>x\<rfloor> < 2 ^ Suc j" unfolding j_def using fl by (rule floor_log2_upper)
  then have "\<lfloor>x\<rfloor> + 1 \<le> 2 ^ Suc j" by simp
  then have "(of_int (\<lfloor>x\<rfloor> + 1) :: rat) \<le> of_int (2 ^ Suc j)" by (simp only: of_int_le_iff)
  moreover have "x < of_int (\<lfloor>x\<rfloor> + 1)" by linarith
  ultimately have "x < of_int ((2::int) ^ Suc j)" by (rule less_le_trans [rotated])
  then have upper: "x < (2::rat) ^ Suc j" by simp
  have "int j + 1 = int (Suc j)" by simp
  then have "(2::rat) powi (int j + 1) = 2 ^ Suc j" by (simp only: power_int_of_nat)
  with lower upper show ?thesis unfolding e by (simp only: power_int_of_nat)
next
  case False
  define y where "y = 1 / x"
  define p where "p = \<lceil>y\<rceil> - 1"
  define j where "j = nat (floor_log2 p)"
  have y1: "1 < y" using False assms by (simp add: y_def)
  then have p1: "1 \<le> p" unfolding p_def by linarith
  have e: "binary_exponent x = - int (Suc j)"
    using False floor_log2_nonneg [of p] by (simp add: binary_exponent_def j_def p_def y_def)
  have "(2::int) ^ j \<le> p" unfolding j_def using p1 by (rule floor_log2_lower)
  then have "of_int ((2::int) ^ j) \<le> (of_int p :: rat)" by (simp only: of_int_le_iff)
  also have "of_int p < y" unfolding p_def by linarith
  finally have "(2::rat) ^ j < y" by simp
  then have upper: "x < 1 / 2 ^ j" using assms by (simp add: y_def field_simps)
  have "p < 2 ^ Suc j" unfolding j_def using p1 by (rule floor_log2_upper)
  then have "\<lceil>y\<rceil> \<le> 2 ^ Suc j" unfolding p_def by simp
  then have "(of_int \<lceil>y\<rceil> :: rat) \<le> of_int (2 ^ Suc j)" by (simp only: of_int_le_iff)
  with le_of_int_ceiling [of y] have "y \<le> of_int ((2::int) ^ Suc j)" by (rule order_trans)
  then have "y \<le> (2::rat) ^ Suc j" by simp
  then have lower: "1 / 2 ^ Suc j \<le> x" using assms by (simp add: y_def field_simps)
  have "- int (Suc j) + 1 = - int j" by simp
  then have "(2::rat) powi (- int (Suc j) + 1) = 1 / 2 ^ j" by (simp only: powi_neg_nat)
  moreover have "(2::rat) powi (- int (Suc j)) = 1 / 2 ^ Suc j" by (rule powi_neg_nat)
  ultimately show ?thesis unfolding e using lower upper by simp
qed

lemma round_double_nearest:
  assumes "round_double x = Finite m" and "x \<noteq> 0"
  shows "\<exists>k. m = of_int k * 2 powi (max (binary_exponent \<bar>x\<bar>) (- 1022) - 52) \<and>
           \<bar>m - x\<bar> \<le> 2 powi (max (binary_exponent \<bar>x\<bar>) (- 1022) - 52) / 2"
proof -
  define q :: rat where "q = 2 powi (max (binary_exponent \<bar>x\<bar>) (- 1022) - 52)"
  define k where "k = round_half_even (x / q)"
  have q0: "0 < q" by (simp add: q_def)
  from assms have m: "m = of_int k * q"
    by (auto simp: round_double_def Let_def q_def k_def split: if_splits)
  have "\<bar>of_int k - x / q\<bar> \<le> 1 / 2" unfolding k_def by (rule round_half_even_nearest)
  then have "\<bar>of_int k - x / q\<bar> * q \<le> 1 / 2 * q" using q0 by (simp only: mult_le_cancel_right_pos)
  moreover have "\<bar>of_int k - x / q\<bar> * q = \<bar>of_int k * q - x\<bar>"
  proof -
    have "\<bar>of_int k - x / q\<bar> * q = \<bar>(of_int k - x / q) * q\<bar>" using q0 by (simp add: abs_mult)
    also have "(of_int k - x / q) * q = of_int k * q - x" using q0 by (simp add: field_simps)
    finally show ?thesis .
  qed
  ultimately have "\<bar>m - x\<bar> \<le> q / 2" unfolding m by simp
  with m show ?thesis unfolding q_def by blast
qed

text \<open>
  Four values of the model, as Python computes them: \<^verbatim>\<open>float(2**53 + 1)\<close> and
  \<^verbatim>\<open>float(2**53 + 3)\<close> are ties and go to the even neighbour, \<^verbatim>\<open>100. / 3\<close> is
  \<^verbatim>\<open>33.333333333333336\<close>, and \<^verbatim>\<open>0. / -5\<close> is the negative zero.
\<close>

lemma float_of_int_tie_down: "float_of_int (2 ^ 53 + 1) = Inr (Finite (2 ^ 53))"
  by code_simp

lemma float_of_int_tie_up: "float_of_int (2 ^ 53 + 3) = Inr (Finite (2 ^ 53 + 4))"
  by code_simp

lemma float_truediv_int_third:
  "float_truediv_int (Finite 100) 3 = Inr (Finite (4691249611844267 / 140737488355328))"
  by code_simp

lemma float_truediv_int_negative_zero: "float_truediv_int (Finite 0) (- 5) = Inr NegZero"
  by code_simp

subsection \<open>The float operations\<close>

text \<open>
  Conversions and products of small integers are exact, a float operation of the loop
  body never yields NaN, and the only exceptions are \<^verbatim>\<open>OverflowError\<close> (conversion of an
  int) and \<^verbatim>\<open>ZeroDivisionError\<close>.
\<close>

lemma float_of_int_exact: "\<bar>n\<bar> < 2 ^ 53 \<Longrightarrow> float_of_int n = Inr (Finite (of_int n))"
  by (cases "n = 0") (simp_all add: float_of_int_def round_double_of_int)

lemma float_of_int_finite:
  "float_of_int i = Inr y \<Longrightarrow> y \<noteq> NaN \<and> \<not> is_inf y"
  by (cases "round_double (of_int i)") (auto simp: float_of_int_def)

lemma float_of_int_error: "float_of_int i = Inl e \<Longrightarrow> e = OverflowError"
  by (cases "round_double (of_int i)") (auto simp: float_of_int_def)

lemma float_mul_exact:
  assumes "0 \<le> a" and "0 \<le> b" and "a * b < 2 ^ 53"
  shows "float_mul (Finite (of_int a)) (Finite (of_int b)) = Finite (of_int (a * b))"
proof (cases "a = 0 \<or> b = 0")
  case True
  then show ?thesis using assms by (auto simp: float_mul_def)
next
  case False
  then have nz: "a * b \<noteq> 0" by simp
  have "\<bar>a * b\<bar> < 2 ^ 53" using assms by simp
  from round_double_of_int [OF nz this] False show ?thesis
    by (simp add: float_mul_def)
qed

lemma float_mul_not_NaN:
  "a \<noteq> NaN \<Longrightarrow> b \<noteq> NaN \<Longrightarrow> \<not> is_inf a \<Longrightarrow> \<not> is_inf b \<Longrightarrow> float_mul a b \<noteq> NaN"
  by (simp add: float_mul_def)

lemma float_truediv_not_NaN:
  "float_truediv a b = Inr c \<Longrightarrow> a \<noteq> NaN \<Longrightarrow> b \<noteq> NaN \<Longrightarrow> \<not> is_inf b \<Longrightarrow> c \<noteq> NaN"
  by (auto simp: float_truediv_def split: if_splits)

lemma float_abs_nonneg: "c \<noteq> NaN \<Longrightarrow> float_le (Finite 0) (float_abs c)"
  by (cases c) auto

lemma float_mul_int_not_NaN:
  assumes "float_mul_int (Finite r) i = Inr t"
  shows "t \<noteq> NaN"
proof -
  from assms obtain y where y: "float_of_int i = Inr y" and t: "t = float_mul (Finite r) y"
    by (auto simp: float_mul_int_def split: sum.splits)
  from float_of_int_finite [OF y] show ?thesis
    unfolding t by (intro float_mul_not_NaN) simp_all
qed

lemma float_truediv_int_not_NaN:
  assumes "float_truediv_int t i = Inr c" and "t \<noteq> NaN"
  shows "c \<noteq> NaN"
proof -
  from assms(1) obtain y where y: "float_of_int i = Inr y" and c: "float_truediv t y = Inr c"
    by (auto simp: float_truediv_int_def split: sum.splits)
  from float_of_int_finite [OF y] float_truediv_not_NaN [OF c assms(2)] show ?thesis
    by simp
qed

lemma float_mul_int_error: "float_mul_int x i = Inl e \<Longrightarrow> e = OverflowError"
  by (auto simp: float_mul_int_def split: sum.splits dest: float_of_int_error)

lemma float_truediv_int_error:
  "float_truediv_int x i = Inl e \<Longrightarrow> e = OverflowError \<or> e = ZeroDivisionError"
  by (auto simp: float_truediv_int_def float_truediv_def
      split: sum.splits if_splits dest: float_of_int_error)

lemma float_truediv_int_zero: "float_truediv_int t 0 = Inl ZeroDivisionError"
  by (simp add: float_truediv_int_def float_of_int_def float_truediv_def)

lemma float_mul_int_100:
  assumes "i \<noteq> 0" and "\<bar>100 * i\<bar> < 2 ^ 53"
  shows "float_mul_int (Finite 100) i = Inr (Finite (of_int (100 * i)))"
proof -
  have "\<bar>i\<bar> < 2 ^ 53" using assms(2) by simp
  then have conv: "float_of_int i = Inr (Finite (of_int i))" by (rule float_of_int_exact)
  have nz: "100 * i \<noteq> 0" using assms(1) by simp
  have "round_double (100 * of_int i) = round_double (of_int (100 * i))" by simp
  also have "\<dots> = Finite (of_int (100 * i))" using nz assms(2) by (rule round_double_of_int)
  finally show ?thesis using assms(1) by (simp add: float_mul_int_def conv float_mul_def)
qed

lemma float_truediv_int_exact:
  assumes "b \<noteq> 0" and "a \<noteq> 0" and "\<bar>a\<bar> < 2 ^ 53" and "\<bar>b\<bar> < 2 ^ 53"
  shows "float_truediv_int (Finite (of_int (a * b))) b = Inr (Finite (of_int a))"
proof -
  have conv: "float_of_int b = Inr (Finite (of_int b))" using assms(4) by (rule float_of_int_exact)
  have "(of_int (a * b) :: rat) / of_int b = of_int a" using assms(1) by simp
  then have "round_double (of_int (a * b) / of_int b) = Finite (of_int a)"
    using round_double_of_int [OF assms(2,3)] by simp
  then show ?thesis using assms(1,2)
    by (simp add: float_truediv_int_def conv float_truediv_def)
qed

lemma float_truediv_int_range:
  assumes "0 \<le> i" and "i \<le> a" and "1 \<le> a" and "100 * a < 2 ^ 53"
    and "float_truediv_int (Finite (of_int (100 * i))) a = Inr ip"
  shows "\<exists>m. ip = Finite m \<and> 0 \<le> m \<and> m \<le> 100 \<and> (i = a \<longrightarrow> m = 100)"
proof -
  have "\<bar>a\<bar> < 2 ^ 53" using assms(3,4) by simp
  then have conv: "float_of_int a = Inr (Finite (of_int a))" by (rule float_of_int_exact)
  have a0: "(of_int a :: rat) \<noteq> 0" using assms(3) by simp
  show ?thesis
  proof (cases "i = 0")
    case True
    with assms(5) conv a0 assms(3) have "ip = Finite 0"
      by (simp add: float_truediv_int_def float_truediv_def)
    with True assms(3) show ?thesis by auto
  next
    case False
    define x :: rat where "x = of_int (100 * i) / of_int a"
    from False assms(5) conv a0 assms(1) have ip: "ip = round_double x"
      by (simp add: float_truediv_int_def float_truediv_def x_def)
    have x_pos: "0 < x" using False assms(1,3) by (simp add: x_def)
    have "(of_int (100 * i) :: rat) \<le> of_int (100 * a)" using assms(2) by (simp only: of_int_le_iff)
    then have x_le: "x \<le> 100" using assms(3) by (simp add: x_def field_simps)
    from round_double_le_100 [OF x_pos x_le] obtain m where
      m: "round_double x = Finite m" "0 \<le> m" "m \<le> 100" by blast
    have "m = 100" if "i = a"
    proof -
      from that a0 have "x = of_int 100" by (simp add: x_def)
      then have "round_double x = Finite (of_int 100)"
        using round_double_of_int [of 100] by simp
      with m(1) show ?thesis by simp
    qed
    with m ip show ?thesis by auto
  qed
qed


lemma float_percentage_rounded:
  assumes "i \<noteq> 0" and "\<bar>100 * i\<bar> < 2 ^ 53" and "a \<noteq> 0" and "\<bar>a\<bar> < 2 ^ 53"
    and "float_mul_int (Finite 100) i = Inr t" and "float_truediv_int t a = Inr p"
  shows "p = round_double (of_int (100 * i) / of_int a)"
proof -
  from float_mul_int_100 [OF assms(1,2)] assms(5) have t: "t = Finite (of_int (100 * i))"
    by simp
  have conv: "float_of_int a = Inr (Finite (of_int a))" using assms(4) by (rule float_of_int_exact)
  from assms(6) show ?thesis
    unfolding t using assms(1,3) by (simp add: float_truediv_int_def conv float_truediv_def)
qed


subsection \<open>The loop body\<close>

text \<open>
  What a row returned by the loop body is made of, when the body raises
  \<^verbatim>\<open>IndexError\<close>, what a zero length does, records on which it raises nothing, and
  the two percentages as the doubles nearest to the exact quotients when the numbers are
  below \<open>2^53\<close>.
\<close>

lemma loop_body_InrD:
  assumes "loop_body res aln = Inr row"
  shows "\<exists>h hs t1 ip t2 c. hsps aln = h # hs \<and>
     float_mul_int (Finite 100) (identities h) = Inr t1 \<and>
     float_truediv_int t1 (align_length h) = Inr ip \<and>
     float_mul_int (Finite 100) (align_length h) = Inr t2 \<and>
     float_truediv_int t2 (query_length res) = Inr c \<and>
     row = (query res, hit_def aln, float_abs c, ip, identities h, align_length h,
            query_start h, query_end h, sbjct_start h, sbjct_end h, query_length res,
            length_aln aln, expect h)"
  using assms by (auto simp: loop_body_def split: list.splits sum.splits)

lemma loop_body_query_cov:
  assumes "loop_body res aln = Inr row"
  shows "float_le (Finite 0) (row_query_cov row)"
proof -
  from loop_body_InrD [OF assms] obtain h :: hsp and t2 c where
    t2: "float_mul_int (Finite 100) (align_length h) = Inr t2" and
    c: "float_truediv_int t2 (query_length res) = Inr c" and
    cov: "row_query_cov row = float_abs c"
    by (auto simp: row_query_cov_def)
  from t2 have "t2 \<noteq> NaN" by (rule float_mul_int_not_NaN)
  with c have "c \<noteq> NaN" by (rule float_truediv_int_not_NaN)
  then show ?thesis unfolding cov by (rule float_abs_nonneg)
qed

lemma loop_body_IndexError: "loop_body res aln = Inl IndexError \<longleftrightarrow> hsps aln = []"
  by (auto simp: loop_body_def split: list.splits sum.splits
      dest: float_mul_int_error float_truediv_int_error)

lemma loop_body_zero_division:
  assumes "hsps aln = h # hs" and "align_length h = 0 \<or> query_length res = 0"
  shows "(loop_body res aln = Inl ZeroDivisionError \<or> loop_body res aln = Inl OverflowError) \<and>
         (\<bar>identities h\<bar> < 2 ^ 53 \<and> \<bar>align_length h\<bar> < 2 ^ 53 \<longrightarrow>
            loop_body res aln = Inl ZeroDivisionError)"
proof (intro conjI impI)
  show "loop_body res aln = Inl ZeroDivisionError \<or> loop_body res aln = Inl OverflowError"
  proof (cases "loop_body res aln")
    case (Inl e)
    moreover from Inl assms(1) have "e \<noteq> IndexError" by (auto simp: loop_body_IndexError)
    ultimately show ?thesis by (cases e) simp_all
  next
    case (Inr row)
    from loop_body_InrD [OF Inr] assms(1) obtain t1 ip t2 c where
      "float_truediv_int t1 (align_length h) = Inr ip"
      "float_truediv_int t2 (query_length res) = Inr c"
      by auto
    with assms(2) show ?thesis by (auto simp: float_truediv_int_zero)
  qed
next
  assume small: "\<bar>identities h\<bar> < 2 ^ 53 \<and> \<bar>align_length h\<bar> < 2 ^ 53"
  then have ci: "float_of_int (identities h) = Inr (Finite (of_int (identities h)))"
    and ca: "float_of_int (align_length h) = Inr (Finite (of_int (align_length h)))"
    by (simp_all add: float_of_int_exact)
  show "loop_body res aln = Inl ZeroDivisionError"
  proof (cases "align_length h = 0")
    case True
    then show ?thesis using assms(1) ci
      by (simp add: loop_body_def float_mul_int_def float_truediv_int_zero)
  next
    case False
    with assms(2) have q: "query_length res = 0" by simp
    obtain t1 where m1: "float_mul_int (Finite 100) (identities h) = Inr t1"
      by (simp add: float_mul_int_def ci)
    obtain ip where d1: "float_truediv_int t1 (align_length h) = Inr ip"
      using False by (simp add: float_truediv_int_def ca float_truediv_def)
    obtain t2 where m2: "float_mul_int (Finite 100) (align_length h) = Inr t2"
      by (simp add: float_mul_int_def ca)
    show ?thesis
      by (simp add: loop_body_def assms(1) m1 d1 m2 q float_truediv_int_zero)
  qed
qed

lemma loop_body_valid:
  assumes "hsps aln = h # hs" and "align_length h \<noteq> 0" and "query_length res \<noteq> 0"
    and "\<bar>identities h\<bar> < 2 ^ 53" and "\<bar>align_length h\<bar> < 2 ^ 53"
    and "\<bar>query_length res\<bar> < 2 ^ 53"
  shows "\<exists>row. loop_body res aln = Inr row"
proof -
  have ci: "float_of_int (identities h) = Inr (Finite (of_int (identities h)))"
    and ca: "float_of_int (align_length h) = Inr (Finite (of_int (align_length h)))"
    and cq: "float_of_int (query_length res) = Inr (Finite (of_int (query_length res)))"
    using assms(4,5,6) by (simp_all add: float_of_int_exact)
  obtain t1 where m1: "float_mul_int (Finite 100) (identities h) = Inr t1"
    by (simp add: float_mul_int_def ci)
  obtain ip where d1: "float_truediv_int t1 (align_length h) = Inr ip"
    using assms(2) by (simp add: float_truediv_int_def ca float_truediv_def)
  obtain t2 where m2: "float_mul_int (Finite 100) (align_length h) = Inr t2"
    by (simp add: float_mul_int_def ca)
  obtain c where d2: "float_truediv_int t2 (query_length res) = Inr c"
    using assms(3) by (simp add: float_truediv_int_def cq float_truediv_def)
  show ?thesis by (simp add: loop_body_def assms(1) m1 d1 m2 d2)
qed


lemma loop_body_rounded:
  assumes "loop_body res aln = Inr row" and "hsps aln = h # hs"
    and "identities h \<noteq> 0" and "\<bar>100 * identities h\<bar> < 2 ^ 53"
    and "\<bar>100 * align_length h\<bar> < 2 ^ 53" and "\<bar>query_length res\<bar> < 2 ^ 53"
  shows "row_identity_perc row =
           round_double (of_int (100 * identities h) / of_int (align_length h)) \<and>
         row_query_cov row =
           float_abs (round_double (of_int (100 * align_length h) / of_int (query_length res)))"
proof -
  from loop_body_InrD [OF assms(1)] assms(2) obtain t1 ip t2 c where
    t1: "float_mul_int (Finite 100) (identities h) = Inr t1" and
    ip: "float_truediv_int t1 (align_length h) = Inr ip" and
    t2: "float_mul_int (Finite 100) (align_length h) = Inr t2" and
    c: "float_truediv_int t2 (query_length res) = Inr c" and
    row: "row_identity_perc row = ip" "row_query_cov row = float_abs c"
    by (auto simp: row_identity_perc_def row_query_cov_def)
  have a0: "align_length h \<noteq> 0" using ip by (auto simp: float_truediv_int_zero)
  have q0: "query_length res \<noteq> 0" using c by (auto simp: float_truediv_int_zero)
  have a: "\<bar>align_length h\<bar> < 2 ^ 53" using assms(5) by simp
  from float_percentage_rounded [OF assms(3,4) a0 a t1 ip]
    float_percentage_rounded [OF a0 assms(5) q0 assms(6) t2 c] row
  show ?thesis by simp
qed


subsection \<open>Rows and outcome of the generator\<close>

text \<open>
  The rows and the outcome of the inner loop and of a run over a concatenation of record
  lists; where an emitted row and a raised exception come from; runs that succeed and
  runs that fail.
\<close>

lemma slice_to_nonneg: "0 \<le> n \<Longrightarrow> slice_to xs n = take (min (length xs) (nat n)) xs"
  by (simp add: slice_to_def min_def)

lemma slice_to_negative:
  "n < 0 \<Longrightarrow> slice_to xs n = take (length xs - nat (- n)) xs"
proof -
  assume "n < 0"
  then have "nat (int (length xs) + n) = length xs - nat (- n)" by simp
  with \<open>n < 0\<close> show ?thesis by (simp add: slice_to_def)
qed

lemma outcome_for_aln:
  "outcome (for_aln res alns k) =
     (case outcome (for_aln res alns StopIteration) of None \<Rightarrow> outcome k | Some e \<Rightarrow> Some e)"
  by (induction alns) (auto split: sum.splits)

lemma rows_of_for_aln:
  "rows_of (for_aln res alns k) =
     (if outcome (for_aln res alns StopIteration) = None
      then rows_of (for_aln res alns StopIteration) @ rows_of k
      else rows_of (for_aln res alns StopIteration))"
  by (induction alns) (auto split: sum.splits)

lemma outcome_tabulate_append:
  "outcome (tabulate_hsp_xml (xs @ ys) n) =
     (case outcome (tabulate_hsp_xml xs n) of
        None \<Rightarrow> outcome (tabulate_hsp_xml ys n)
      | Some e \<Rightarrow> Some e)"
proof (induction xs)
  case Nil
  show ?case by simp
next
  case (Cons res xs)
  show ?case
    using Cons.IH
    by (simp add: outcome_for_aln [of res _ "tabulate_hsp_xml (xs @ ys) n"]
        outcome_for_aln [of res _ "tabulate_hsp_xml xs n"] split: option.splits)
qed

lemma rows_of_tabulate_append:
  "rows_of (tabulate_hsp_xml (xs @ ys) n) =
     (if outcome (tabulate_hsp_xml xs n) = None
      then rows_of (tabulate_hsp_xml xs n) @ rows_of (tabulate_hsp_xml ys n)
      else rows_of (tabulate_hsp_xml xs n))"
proof (induction xs)
  case Nil
  show ?case by simp
next
  case (Cons res xs)
  show ?case
    using Cons.IH
    by (simp add: rows_of_for_aln [of res _ "tabulate_hsp_xml (xs @ ys) n"]
        rows_of_for_aln [of res _ "tabulate_hsp_xml xs n"]
        outcome_for_aln [of res _ "tabulate_hsp_xml xs n"] split: option.splits)
qed

lemma outcome_tabulate_Cons:
  "outcome (tabulate_hsp_xml (res # result) n) =
     (case outcome (tabulate_hsp_xml [res] n) of
        None \<Rightarrow> outcome (tabulate_hsp_xml result n)
      | Some e \<Rightarrow> Some e)"
  using outcome_tabulate_append [of "[res]" result n] by simp

lemma rows_of_tabulate_Cons:
  "rows_of (tabulate_hsp_xml (res # result) n) =
     (if outcome (tabulate_hsp_xml [res] n) = None
      then rows_of (tabulate_hsp_xml [res] n) @ rows_of (tabulate_hsp_xml result n)
      else rows_of (tabulate_hsp_xml [res] n))"
  using rows_of_tabulate_append [of "[res]" result n] by simp

lemma for_aln_success:
  "outcome (for_aln res alns StopIteration) = None \<Longrightarrow>
   map Inr (rows_of (for_aln res alns StopIteration)) = map (loop_body res) alns"
  by (induction alns) (auto split: sum.splits)

lemma tabulate_success:
  "outcome (tabulate_hsp_xml result n) = None \<Longrightarrow>
   map Inr (rows_of (tabulate_hsp_xml result n)) =
     concat (map (\<lambda>res. map (loop_body res) (slice_to (alignments res) n)) result)"
proof (induction result)
  case Nil
  show ?case by simp
next
  case (Cons res result)
  from Cons.prems have a: "outcome (for_aln res (slice_to (alignments res) n) StopIteration) = None"
    and b: "outcome (tabulate_hsp_xml result n) = None"
    by (auto simp: outcome_for_aln [of res _ "tabulate_hsp_xml result n"] split: option.splits)
  show ?case
    using a b Cons.IH [OF b] for_aln_success [OF a]
    by (simp add: rows_of_for_aln [of res _ "tabulate_hsp_xml result n"])
qed

lemma tabulate_success_each:
  "outcome (tabulate_hsp_xml result n) = None \<Longrightarrow>
   (\<forall>res\<in>set result. outcome (tabulate_hsp_xml [res] n) = None) \<and>
   rows_of (tabulate_hsp_xml result n) =
     concat (map (\<lambda>res. rows_of (tabulate_hsp_xml [res] n)) result)"
proof (induction result)
  case Nil
  show ?case by simp
next
  case (Cons res result)
  from Cons.prems have a: "outcome (tabulate_hsp_xml [res] n) = None"
    and b: "outcome (tabulate_hsp_xml result n) = None"
    by (auto simp: outcome_tabulate_Cons [of res result] simp del: tabulate_hsp_xml.simps
        split: option.splits)
  from Cons.IH [OF b] a show ?case
    by (simp add: rows_of_tabulate_Cons [of res result] del: tabulate_hsp_xml.simps)
qed

lemma single_success_length:
  assumes "outcome (tabulate_hsp_xml [res] n) = None"
  shows "length (rows_of (tabulate_hsp_xml [res] n)) = length (slice_to (alignments res) n)"
proof -
  from assms have "outcome (for_aln res (slice_to (alignments res) n) StopIteration) = None"
    by simp
  from for_aln_success [OF this]
  have "length (map Inr (rows_of (tabulate_hsp_xml [res] n)) :: (error + metric_row) list) =
      length (map (loop_body res) (slice_to (alignments res) n))"
    by simp
  then show ?thesis by simp
qed

lemma for_aln_prefix:
  "\<exists>rest. map (loop_body res) alns @ map Inr (rows_of k) =
     map Inr (rows_of (for_aln res alns k)) @ rest"
  by (induction alns) (auto split: sum.splits)

lemma tabulate_prefix:
  "\<exists>rest. concat (map (\<lambda>res. map (loop_body res) (slice_to (alignments res) n)) result) =
     map Inr (rows_of (tabulate_hsp_xml result n)) @ rest"
proof (induction result)
  case Nil
  show ?case by simp
next
  case (Cons res result)
  then obtain rest where rest:
    "concat (map (\<lambda>res. map (loop_body res) (slice_to (alignments res) n)) result) =
       map Inr (rows_of (tabulate_hsp_xml result n)) @ rest"
    by blast
  from for_aln_prefix [of res "slice_to (alignments res) n" "tabulate_hsp_xml result n"]
  obtain rest' where
    "map (loop_body res) (slice_to (alignments res) n) @
       map Inr (rows_of (tabulate_hsp_xml result n)) =
     map Inr (rows_of (tabulate_hsp_xml (res # result) n)) @ rest'"
    by auto
  with rest have "concat (map (\<lambda>res. map (loop_body res) (slice_to (alignments res) n))
      (res # result)) = map Inr (rows_of (tabulate_hsp_xml (res # result) n)) @ (rest' @ rest)"
    by simp
  then show ?case by blast
qed

lemma for_aln_failure:
  "map (loop_body res) pre = map Inr rows \<Longrightarrow> loop_body res aln = Inl e \<Longrightarrow>
   rows_of (for_aln res (pre @ aln # post) k) = rows \<and>
   outcome (for_aln res (pre @ aln # post) k) = Some e"
  by (induction pre arbitrary: rows) (auto split: sum.splits)

lemma for_aln_failureD:
  "outcome (for_aln res alns StopIteration) = Some e \<Longrightarrow>
   \<exists>pre aln post. alns = pre @ aln # post \<and> loop_body res aln = Inl e \<and>
     map (loop_body res) pre = map Inr (rows_of (for_aln res alns StopIteration))"
proof (induction alns)
  case Nil
  then show ?case by simp
next
  case (Cons a alns)
  show ?case
  proof (cases "loop_body res a")
    case (Inl e')
    with Cons.prems have "e' = e" by simp
    with Inl show ?thesis by (intro exI [of _ "[]"] exI [of _ a] exI [of _ alns]) simp
  next
    case (Inr row)
    with Cons.prems have "outcome (for_aln res alns StopIteration) = Some e" by simp
    from Cons.IH [OF this] obtain pre aln post where
      "alns = pre @ aln # post" "loop_body res aln = Inl e"
      "map (loop_body res) pre = map Inr (rows_of (for_aln res alns StopIteration))"
      by blast
    with Inr show ?thesis
      by (intro exI [of _ "a # pre"] exI [of _ aln] exI [of _ post]) simp
  qed
qed

lemma for_aln_rowD:
  "row \<in> set (rows_of (for_aln res alns k)) \<Longrightarrow>
   (\<exists>aln\<in>set alns. loop_body res aln = Inr row) \<or> row \<in> set (rows_of k)"
  by (induction alns) (auto split: sum.splits)

lemma emitted_rowD:
  "row \<in> set (rows_of (tabulate_hsp_xml result n)) \<Longrightarrow>
   \<exists>res\<in>set result. \<exists>aln\<in>set (slice_to (alignments res) n). loop_body res aln = Inr row"
proof (induction result)
  case Nil
  then show ?case by simp
next
  case (Cons res result)
  from Cons.prems have "row \<in> set (rows_of (for_aln res (slice_to (alignments res) n)
      (tabulate_hsp_xml result n)))" by simp
  from for_aln_rowD [OF this] Cons.IH show ?case by auto
qed

lemma for_aln_errorD:
  "outcome (for_aln res alns k) = Some e \<Longrightarrow>
   (\<exists>aln\<in>set alns. loop_body res aln = Inl e) \<or> outcome k = Some e"
  by (induction alns) (auto split: sum.splits)

lemma raised_errorD:
  "outcome (tabulate_hsp_xml result n) = Some e \<Longrightarrow>
   \<exists>res\<in>set result. \<exists>aln\<in>set (slice_to (alignments res) n). loop_body res aln = Inl e"
proof (induction result)
  case Nil
  then show ?case by simp
next
  case (Cons res result)
  from Cons.prems have "outcome (for_aln res (slice_to (alignments res) n)
      (tabulate_hsp_xml result n)) = Some e" by simp
  from for_aln_errorD [OF this] Cons.IH show ?case by auto
qed

lemma valid_records_raise_nothing:
  assumes "\<forall>res\<in>set result. \<forall>aln\<in>set (slice_to (alignments res) n).
      \<exists>h hs. hsps aln = h # hs \<and> align_length h \<noteq> 0 \<and> query_length res \<noteq> 0 \<and>
        \<bar>identities h\<bar> < 2 ^ 53 \<and> \<bar>align_length h\<bar> < 2 ^ 53 \<and> \<bar>query_length res\<bar> < 2 ^ 53"
  shows "outcome (tabulate_hsp_xml result n) = None"
proof (cases "outcome (tabulate_hsp_xml result n)")
  case None
  then show ?thesis .
next
  case (Some e)
  from raised_errorD [OF Some] obtain res aln where
    "res \<in> set result" "aln \<in> set (slice_to (alignments res) n)" and
    bad: "loop_body res aln = Inl e"
    by blast
  with assms obtain h hs where "hsps aln = h # hs" "align_length h \<noteq> 0" "query_length res \<noteq> 0"
    "\<bar>identities h\<bar> < 2 ^ 53" "\<bar>align_length h\<bar> < 2 ^ 53" "\<bar>query_length res\<bar> < 2 ^ 53"
    by blast
  from loop_body_valid [OF this] bad show ?thesis by simp
qed

lemma iterates_iff: "iterates g xs r \<longleftrightarrow> xs = rows_of g \<and> r = outcome g"
proof
  assume "iterates g xs r"
  then show "xs = rows_of g \<and> r = outcome g"
    by (induction rule: iterates.induct) simp_all
next
  assume "xs = rows_of g \<and> r = outcome g"
  moreover have "iterates g (rows_of g) (outcome g)"
    by (induction g) (auto intro: iterates.intros)
  ultimately show "iterates g xs r" by simp
qed


subsection \<open>The written report\<close>

text \<open>
  The file is the header line followed by the lines of the emitted rows. A field without
  tab, quote, carriage return and line feed is written as it is, and splitting a line of
  such fields at the tabs gives the fields back.
\<close>

lemma write_rows_eq:
  "write_rows rp g f =
     (f @ concat (map (\<lambda>row. writerow (map (str_cell rp) (cells_of_row row))) (rows_of g)),
      outcome g)"
  by (induction g arbitrary: f) auto

lemma blast_report_eq:
  "blast_report rp fs reportpath result n =
     (fs(reportpath \<mapsto> writerow headers @
        concat (map (\<lambda>row. writerow (map (str_cell rp) (cells_of_row row)))
          (rows_of (tabulate_hsp_xml result n)))),
      outcome (tabulate_hsp_xml result n))"
  by (simp add: blast_report_def write_rows_eq)

lemma quote_field_plain: "\<not> needs_quotes s \<Longrightarrow> quote_field s = s"
  by (simp add: quote_field_def)

lemma needs_quotes_tab: "\<not> needs_quotes s \<Longrightarrow> tab \<notin> set s"
  by (auto simp: needs_quotes_def list_ex_iff)

lemma split_on_plain: "c \<notin> set s \<Longrightarrow> split_on c s = [s]"
  by (induction s) auto

lemma split_on_append: "c \<notin> set s \<Longrightarrow> split_on c (s @ c # t) = s # split_on c t"
  by (induction s) auto

lemma split_on_join:
  "ss \<noteq> [] \<Longrightarrow> \<forall>s\<in>set ss. c \<notin> set s \<Longrightarrow> split_on c (join c ss) = ss"
proof (induction c ss rule: join.induct)
  case (1 d)
  then show ?case by simp
next
  case (2 d s)
  then show ?case by (simp add: split_on_plain)
next
  case (3 d s v va)
  then show ?case by (simp add: split_on_append)
qed

lemma join_two_nonempty: "join d (s # t # ss) \<noteq> []"
  by simp

lemma map_quote_field_plain:
  "\<forall>s\<in>set ss. \<not> needs_quotes s \<Longrightarrow> map quote_field ss = ss"
  by (induction ss) (simp_all add: quote_field_plain)

lemma writerow_plain:
  assumes "2 \<le> length ss" and "\<forall>s\<in>set ss. \<not> needs_quotes s"
  shows "writerow ss = join tab ss @ lineterminator"
proof -
  from assms(1) obtain s t rest where ss: "ss = s # t # rest"
    by (cases ss; cases "tl ss") auto
  have "join tab ss \<noteq> []" unfolding ss by (rule join_two_nonempty)
  then show ?thesis
    by (simp add: writerow_def map_quote_field_plain [OF assms(2)])
qed

lemma digits_chars: "set (digits n) \<subseteq> set ''0123456789''"
proof (induction n rule: digits.induct)
  case (1 n)
  have digit: "''0123456789'' ! nat (k mod 10) \<in> set ''0123456789''" for k :: int
  proof -
    have "nat (k mod 10) < length ''0123456789''" by simp
    then show ?thesis by (rule nth_mem)
  qed
  show ?case
  proof (cases "n < 10")
    case True
    have "nat n < length ''0123456789''" using True by simp
    then have "''0123456789'' ! nat n \<in> set ''0123456789''" by (rule nth_mem)
    then show ?thesis using True by (subst digits.simps) simp
  next
    case False
    with "1.IH" digit [of n] show ?thesis by (subst digits.simps) simp
  qed
qed

lemma str_int_plain: "\<not> needs_quotes (str_int i)"
proof -
  have "c \<in> set ''0123456789'' \<Longrightarrow> \<not> (c = tab \<or> c = dquote \<or> c \<in> set lineterminator)" for c
    by (auto simp: tab_def dquote_def lineterminator_def)
  with digits_chars have "\<not> needs_quotes (digits n)" for n
    by (auto simp: needs_quotes_def list_ex_iff)
  then show ?thesis
    by (simp add: str_int_def needs_quotes_def tab_def dquote_def lineterminator_def)
qed

lemma headers_plain: "\<forall>s\<in>set headers. \<not> needs_quotes s"
  by (simp add: headers_def needs_quotes_def tab_def dquote_def lineterminator_def)

lemma length_headers: "length headers = 13"
  by (simp add: headers_def)

lemma length_cells_of_row: "length (cells_of_row row) = 13"
  by (cases row) (simp add: cells_of_row_def split: prod.splits)

lemma cells_plain:
  assumes "\<forall>x. \<not> needs_quotes (repr_float x)"
    and "\<not> needs_quotes (fst row)" and "\<not> needs_quotes (fst (snd row))"
  shows "\<forall>s\<in>set (map (str_cell repr_float) (cells_of_row row)). \<not> needs_quotes s"
  using assms by (cases row) (auto simp: cells_of_row_def str_int_plain split: prod.splits)

lemma repr_float_whole_plain: "\<not> needs_quotes (repr_float_whole x)"
proof (cases x)
  case (Finite r)
  have "\<not> needs_quotes (str_int \<lfloor>r\<rfloor>)" by (rule str_int_plain)
  then show ?thesis
    by (simp add: repr_float_whole_def Finite needs_quotes_def tab_def dquote_def
        lineterminator_def)
qed (simp_all add: repr_float_whole_def needs_quotes_def tab_def dquote_def lineterminator_def)


subsection \<open>The example records\<close>

text \<open>
  The loop body, the generator and the writer evaluated on the example records.
\<close>

lemma alignments_scenario_rec [simp]: "alignments (scenario_rec q alns) = alns"
  by (simp add: scenario_rec_def)

lemma loop_body_scenario:
  "loop_body (scenario_rec q alns) (scenario_aln name) = Inr (scenario_row q name)"
proof -
  have m1: "float_mul_int (Finite 100) 95 = Inr (Finite 9500)"
    using float_mul_int_100 [of 95] by simp
  have d1: "float_truediv_int (Finite 9500) 100 = Inr (Finite 95)"
    using float_truediv_int_exact [of 100 95] by simp
  have m2: "float_mul_int (Finite 100) 100 = Inr (Finite 10000)"
    using float_mul_int_100 [of 100] by simp
  have d2: "float_truediv_int (Finite 10000) 100 = Inr (Finite 100)"
    using float_truediv_int_exact [of 100 100] by simp
  show ?thesis
    by (simp add: loop_body_def scenario_rec_def scenario_aln_def scenario_hsp_def
        scenario_row_def m1 d1 m2 d2)
qed

lemma loop_body_perfect:
  "loop_body (scenario_rec q alns) perfect_aln =
     Inr (q, ''strain_1'', Finite 100, Finite 100, 100, 100, 1, 100, 1, 100, 100, 2341, Finite 0)"
proof -
  have m: "float_mul_int (Finite 100) 100 = Inr (Finite 10000)"
    using float_mul_int_100 [of 100] by simp
  have d: "float_truediv_int (Finite 10000) 100 = Inr (Finite 100)"
    using float_truediv_int_exact [of 100 100] by simp
  show ?thesis
    by (simp add: loop_body_def scenario_rec_def perfect_aln_def scenario_hsp_def m d)
qed

lemma loop_body_no_hsp: "loop_body res no_hsp_aln = Inl IndexError"
  by (simp add: loop_body_def no_hsp_aln_def)

lemma loop_body_zero_length:
  "loop_body res zero_length_aln = Inl ZeroDivisionError"
  by (simp add: loop_body_def zero_length_aln_def scenario_hsp_def float_mul_int_def
      float_truediv_int_def float_of_int_def float_mul_def float_truediv_def)

lemma loop_body_negative_length:
  "loop_body (scenario_rec q alns) negative_length_aln =
     Inr (q, ''strain_neg'', Finite 100, Finite (- 95), 95, - 100, 1, 100, 1, 100, 100, 2341,
          Finite 0)"
proof -
  have m1: "float_mul_int (Finite 100) 95 = Inr (Finite 9500)"
    using float_mul_int_100 [of 95] by simp
  have d1: "float_truediv_int (Finite 9500) (- 100) = Inr (Finite (- 95))"
    using float_truediv_int_exact [of "- 100" "- 95"] by simp
  have m2: "float_mul_int (Finite 100) (- 100) = Inr (Finite (- 10000))"
    using float_mul_int_100 [of "- 100"] by simp
  have d2: "float_truediv_int (Finite (- 10000)) 100 = Inr (Finite (- 100))"
    using float_truediv_int_exact [of 100 "- 100"] by simp
  show ?thesis
    by (simp add: loop_body_def scenario_rec_def negative_length_aln_def scenario_hsp_def
        m1 d1 m2 d2)
qed

lemma tabulate_scenario_B:
  "tabulate_hsp_xml scenario_B 2 =
     Yield (scenario_row ''contig_1'' ''strain_1'')
       (Yield (scenario_row ''contig_1'' ''strain_2'') StopIteration)"
  by (simp add: scenario_B_def slice_to_def loop_body_scenario)

lemma tabulate_scenario_B_negative:
  "tabulate_hsp_xml scenario_B (- 1) =
     Yield (scenario_row ''contig_1'' ''strain_1'')
       (Yield (scenario_row ''contig_1'' ''strain_2'') StopIteration)"
  by (simp add: scenario_B_def slice_to_def loop_body_scenario)

lemma tabulate_scenario_B_zero: "tabulate_hsp_xml scenario_B 0 = StopIteration"
  by (simp add: scenario_B_def slice_to_def)

lemma tabulate_zero_length_rec:
  "tabulate_hsp_xml [zero_length_rec] 2 =
     Yield (scenario_row ''contig_2'' ''strain_4'') (Raise ZeroDivisionError)"
  by (simp add: zero_length_rec_def slice_to_def loop_body_scenario loop_body_zero_length)

lemma tabulate_negative_length_rec:
  "tabulate_hsp_xml [negative_length_rec] 2 = Yield negative_length_row StopIteration"
  by (simp add: negative_length_rec_def negative_length_row_def slice_to_def
      loop_body_negative_length)

lemma tabulate_tab_rec:
  "tabulate_hsp_xml [tab_rec] 2 = Yield (scenario_row ''contig_1'' tab_name) StopIteration"
  by (simp add: tab_rec_def slice_to_def loop_body_scenario)

lemma huge_mul:
  "float_mul_int (Finite 100) 877329965204690300 = Inr (Finite 87732996520469037056)"
  by code_simp

lemma huge_div:
  "float_truediv_int (Finite 87732996520469037056) 877329965204690300 =
     Inr (Finite (7036874417766401 / 70368744177664))"
  by code_simp

lemma tabulate_huge_rec:
  "tabulate_hsp_xml [huge_rec] 10 =
     Yield (''contig_1'', ''strain_1'', Finite (7036874417766401 / 70368744177664),
            Finite (7036874417766401 / 70368744177664), 877329965204690300,
            877329965204690300, 1, 100, 1, 100, 877329965204690300, 877329965204690300,
            Finite 0) StopIteration"
  by (simp add: huge_rec_def huge_hsp_def scenario_hsp_def slice_to_def loop_body_def
      huge_mul huge_div)

lemma str_int_examples:
  "str_int 0 = ''0''" "str_int 1 = ''1''" "str_int 95 = ''95''" "str_int 100 = ''100''"
  "str_int 2341 = ''2341''"
  by (simp_all add: str_int_def digits.simps)

lemma tab_row_text:
  "map (str_cell repr_float_whole) (cells_of_row (scenario_row ''contig_1'' tab_name)) =
     [''contig_1'', tab_name, ''100.0'', ''95.0'', ''95'', ''100'', ''1'', ''100'', ''1'', ''100'',
      ''100'', ''2341'', ''0.0'']"
  by (simp add: scenario_row_def cells_of_row_def repr_float_whole_def str_int_examples)

lemma tab_row_line:
  "writerow (map (str_cell repr_float_whole) (cells_of_row (scenario_row ''contig_1'' tab_name))) =
     join tab tab_row_pieces @ lineterminator"
  unfolding tab_row_text
  by (simp add: writerow_def quote_field_def needs_quotes_def tab_name_def tab_def dquote_def
      lineterminator_def tab_row_pieces_def)



section \<open>The claims\<close>

text \<open>
  C1. For a limit \<open>n \<ge> 0\<close>, the rows of a run are, in this order, the results of the loop
  body on the first \<open>min k n\<close> alignments of each record (\<open>k\<close> being the number of its
  alignments), record after record: every run emits an initial part of this sequence, and
  a run that raises no exception emits all of it, so that each record contributes exactly
  \<open>min k n\<close> rows, one per alignment and in the order of the alignments, and every row of
  a record comes before the rows of the next record.
\<close>

theorem tabulate_emits_top_n:
  assumes "0 \<le> n"
  shows "(\<exists>rest.
            concat (map (\<lambda>res. map (loop_body res)
              (take (min (length (alignments res)) (nat n)) (alignments res))) result) =
            map Inr (rows_of (tabulate_hsp_xml result n)) @ rest) \<and>
         (outcome (tabulate_hsp_xml result n) = None \<longrightarrow>
            map Inr (rows_of (tabulate_hsp_xml result n)) =
              concat (map (\<lambda>res. map (loop_body res)
                (take (min (length (alignments res)) (nat n)) (alignments res))) result) \<and>
            rows_of (tabulate_hsp_xml result n) =
              concat (map (\<lambda>res. rows_of (tabulate_hsp_xml [res] n)) result) \<and>
            (\<forall>res\<in>set result.
               length (rows_of (tabulate_hsp_xml [res] n)) =
                 min (length (alignments res)) (nat n) \<and>
               map Inr (rows_of (tabulate_hsp_xml [res] n)) =
                 map (loop_body res)
                   (take (min (length (alignments res)) (nat n)) (alignments res))))"
proof (intro conjI impI ballI)
  show "\<exists>rest.
      concat (map (\<lambda>res. map (loop_body res)
        (take (min (length (alignments res)) (nat n)) (alignments res))) result) =
      map Inr (rows_of (tabulate_hsp_xml result n)) @ rest"
    using tabulate_prefix [of n result] assms by (simp add: slice_to_nonneg)
next
  assume ok: "outcome (tabulate_hsp_xml result n) = None"
  from tabulate_success_each [OF ok]
  have each: "\<forall>res\<in>set result. outcome (tabulate_hsp_xml [res] n) = None"
    and groups: "rows_of (tabulate_hsp_xml result n) =
      concat (map (\<lambda>res. rows_of (tabulate_hsp_xml [res] n)) result)"
    by blast+
  show "rows_of (tabulate_hsp_xml result n) =
      concat (map (\<lambda>res. rows_of (tabulate_hsp_xml [res] n)) result)"
    by (rule groups)
  show "map Inr (rows_of (tabulate_hsp_xml result n)) =
      concat (map (\<lambda>res. map (loop_body res)
        (take (min (length (alignments res)) (nat n)) (alignments res))) result)"
    using tabulate_success [OF ok] assms by (simp add: slice_to_nonneg)
  fix res
  assume "res \<in> set result"
  with each have one: "outcome (tabulate_hsp_xml [res] n) = None" by blast
  from single_success_length [OF one] assms
  show "length (rows_of (tabulate_hsp_xml [res] n)) = min (length (alignments res)) (nat n)"
    by (simp add: slice_to_nonneg)
  from tabulate_success [OF one] assms
  show "map Inr (rows_of (tabulate_hsp_xml [res] n)) =
      map (loop_body res) (take (min (length (alignments res)) (nat n)) (alignments res))"
    by (simp add: slice_to_nonneg)
qed

theorem tabulate_emits_top_n_witness:
  "(0::int) \<le> 2 \<and> outcome (tabulate_hsp_xml (scenario_B @ later_recs) 2) = None \<and>
   map Inr (rows_of (tabulate_hsp_xml (scenario_B @ later_recs) 2)) =
     concat (map (\<lambda>res. map (loop_body res)
       (take (min (length (alignments res)) (nat 2)) (alignments res))) (scenario_B @ later_recs)) \<and>
   rows_of (tabulate_hsp_xml (scenario_B @ later_recs) 2) =
     concat (map (\<lambda>res. rows_of (tabulate_hsp_xml [res] 2)) (scenario_B @ later_recs)) \<and>
   list_all (\<lambda>res.
       length (rows_of (tabulate_hsp_xml [res] 2)) = min (length (alignments res)) (nat 2) \<and>
       map Inr (rows_of (tabulate_hsp_xml [res] 2)) =
         map (loop_body res) (take (min (length (alignments res)) (nat 2)) (alignments res)))
     (scenario_B @ later_recs) \<and>
   rows_of (tabulate_hsp_xml (scenario_B @ later_recs) 2) =
     [scenario_row ''contig_1'' ''strain_1'', scenario_row ''contig_1'' ''strain_2'',
      scenario_row ''contig_3'' ''strain_6'']"
proof -
  have n: "(0::int) \<le> 2" by simp
  have run: "tabulate_hsp_xml (scenario_B @ later_recs) 2 =
      Yield (scenario_row ''contig_1'' ''strain_1'')
        (Yield (scenario_row ''contig_1'' ''strain_2'')
          (Yield (scenario_row ''contig_3'' ''strain_6'') StopIteration))"
    by (simp add: scenario_B_def later_recs_def slice_to_def loop_body_scenario)
  have h: "outcome (tabulate_hsp_xml (scenario_B @ later_recs) 2) = None"
    unfolding run by simp
  have r: "rows_of (tabulate_hsp_xml (scenario_B @ later_recs) 2) =
     [scenario_row ''contig_1'' ''strain_1'', scenario_row ''contig_1'' ''strain_2'',
      scenario_row ''contig_3'' ''strain_6'']"
    unfolding run by simp
  from n h r tabulate_emits_top_n [OF n, of "scenario_B @ later_recs"] show ?thesis
    unfolding list_all_iff by blast
qed


text \<open>
  C2. Every emitted row comes from one record and one of its sliced alignments, and is
  computed from the first HSP \<open>h\<close> of that alignment only: the identity percentage is
  \<^verbatim>\<open>100. * identities / align_length\<close> in float arithmetic, the coverage is the absolute
  value of \<^verbatim>\<open>100. * align_length / query_length\<close>, the other fields are passed through,
  and replacing the HSPs after the first by any others gives the same row.
\<close>

theorem row_from_first_hsp:
  assumes "row \<in> set (rows_of (tabulate_hsp_xml result n))"
  shows "\<exists>res\<in>set result. \<exists>aln\<in>set (slice_to (alignments res) n).
           \<exists>h hs t1 ip t2 c.
             hsps aln = h # hs \<and>
             float_mul_int (Finite 100) (identities h) = Inr t1 \<and>
             float_truediv_int t1 (align_length h) = Inr ip \<and>
             float_mul_int (Finite 100) (align_length h) = Inr t2 \<and>
             float_truediv_int t2 (query_length res) = Inr c \<and>
             row = (query res, hit_def aln, float_abs c, ip, identities h, align_length h,
                    query_start h, query_end h, sbjct_start h, sbjct_end h,
                    query_length res, length_aln aln, expect h) \<and>
             (\<forall>hs'. loop_body res (aln\<lparr>hsps := h # hs'\<rparr>) = Inr row)"
proof -
  from emitted_rowD [OF assms] obtain res aln where
    res: "res \<in> set result" and aln: "aln \<in> set (slice_to (alignments res) n)" and
    body: "loop_body res aln = Inr row"
    by blast
  from loop_body_InrD [OF body] obtain h hs t1 ip t2 c where
    parts: "hsps aln = h # hs"
      "float_mul_int (Finite 100) (identities h) = Inr t1"
      "float_truediv_int t1 (align_length h) = Inr ip"
      "float_mul_int (Finite 100) (align_length h) = Inr t2"
      "float_truediv_int t2 (query_length res) = Inr c"
      "row = (query res, hit_def aln, float_abs c, ip, identities h, align_length h,
              query_start h, query_end h, sbjct_start h, sbjct_end h,
              query_length res, length_aln aln, expect h)"
    by blast
  have "loop_body res (aln\<lparr>hsps := h # hs'\<rparr>) = Inr row" for hs'
    using parts by (simp add: loop_body_def)
  with res aln parts show ?thesis by blast
qed

theorem row_from_first_hsp_witness:
  "scenario_row ''contig_1'' ''strain_2'' \<in> set (rows_of (tabulate_hsp_xml scenario_B 2)) \<and>
   (\<exists>res\<in>set scenario_B. \<exists>aln\<in>set (slice_to (alignments res) 2).
      \<exists>h hs t1 ip t2 c.
        hsps aln = h # hs \<and>
        float_mul_int (Finite 100) (identities h) = Inr t1 \<and>
        float_truediv_int t1 (align_length h) = Inr ip \<and>
        float_mul_int (Finite 100) (align_length h) = Inr t2 \<and>
        float_truediv_int t2 (query_length res) = Inr c \<and>
        scenario_row ''contig_1'' ''strain_2'' =
          (query res, hit_def aln, float_abs c, ip, identities h, align_length h,
           query_start h, query_end h, sbjct_start h, sbjct_end h,
           query_length res, length_aln aln, expect h) \<and>
        (\<forall>hs'. loop_body res (aln\<lparr>hsps := h # hs'\<rparr>) =
           Inr (scenario_row ''contig_1'' ''strain_2'')))"
proof -
  have h: "scenario_row ''contig_1'' ''strain_2'' \<in> set (rows_of (tabulate_hsp_xml scenario_B 2))"
    unfolding tabulate_scenario_B by simp
  from h row_from_first_hsp [OF h] show ?thesis by (rule conjI)
qed


text \<open>
  C3 (amended). When the first HSP of a sliced alignment has \<open>align_length = 0\<close>, or its
  record has \<open>query_length = 0\<close>, and nothing before it raised, the run ends at this
  alignment with Python's \<^verbatim>\<open>ZeroDivisionError\<close> (with \<^verbatim>\<open>OverflowError\<close> instead only if
  an int of the HSP is too large for a float; never below \<open>2^53\<close>), an exception that
  carries no identifier; the rows of the earlier alignments are emitted and no row is
  emitted for this alignment.
\<close>

theorem zero_length_raises:
  assumes "outcome (tabulate_hsp_xml earlier n) = None"
    and "slice_to (alignments res) n = pre @ aln # post"
    and "map (loop_body res) pre = map Inr rows"
    and "hsps aln = h # hs"
    and "align_length h = 0 \<or> query_length res = 0"
  shows "(outcome (tabulate_hsp_xml (earlier @ res # later) n) = Some ZeroDivisionError \<or>
          outcome (tabulate_hsp_xml (earlier @ res # later) n) = Some OverflowError) \<and>
         (\<bar>identities h\<bar> < 2 ^ 53 \<and> \<bar>align_length h\<bar> < 2 ^ 53 \<longrightarrow>
            outcome (tabulate_hsp_xml (earlier @ res # later) n) = Some ZeroDivisionError) \<and>
         rows_of (tabulate_hsp_xml (earlier @ res # later) n) =
           rows_of (tabulate_hsp_xml earlier n) @ rows"
proof -
  obtain e where body: "loop_body res aln = Inl e"
    using loop_body_zero_division [OF assms(4,5)] by blast
  from for_aln_failure [OF assms(3) body, of post "tabulate_hsp_xml later n"] assms(2)
  have one: "rows_of (tabulate_hsp_xml (res # later) n) = rows"
    "outcome (tabulate_hsp_xml (res # later) n) = Some e"
    by simp_all
  have out: "outcome (tabulate_hsp_xml (earlier @ res # later) n) = Some e"
    using assms(1) one by (simp add: outcome_tabulate_append)
  have rows: "rows_of (tabulate_hsp_xml (earlier @ res # later) n) =
      rows_of (tabulate_hsp_xml earlier n) @ rows"
    using assms(1) one by (simp add: rows_of_tabulate_append)
  from loop_body_zero_division [OF assms(4,5)] body out rows show ?thesis by auto
qed

theorem zero_length_raises_witness:
  "outcome (tabulate_hsp_xml scenario_B 2) = None \<and>
   slice_to (alignments zero_length_rec) 2 = [scenario_aln ''strain_4''] @ zero_length_aln # [] \<and>
   map (loop_body zero_length_rec) [scenario_aln ''strain_4''] =
     map Inr [scenario_row ''contig_2'' ''strain_4''] \<and>
   hsps zero_length_aln = scenario_hsp\<lparr>identities := 0, align_length := 0\<rparr> # [] \<and>
   align_length (scenario_hsp\<lparr>identities := 0, align_length := 0\<rparr>) = 0 \<and>
   \<bar>identities (scenario_hsp\<lparr>identities := 0, align_length := 0\<rparr>)\<bar> < 2 ^ 53 \<and>
   \<bar>align_length (scenario_hsp\<lparr>identities := 0, align_length := 0\<rparr>)\<bar> < 2 ^ 53 \<and>
   outcome (tabulate_hsp_xml (scenario_B @ zero_length_rec # later_recs) 2) =
     Some ZeroDivisionError \<and>
   rows_of (tabulate_hsp_xml (scenario_B @ zero_length_rec # later_recs) 2) =
     rows_of (tabulate_hsp_xml scenario_B 2) @ [scenario_row ''contig_2'' ''strain_4''] \<and>
   slice_to (alignments zero_query_rec) 2 = [] @ scenario_aln ''strain_4'' # [] \<and>
   hsps (scenario_aln ''strain_4'') = scenario_hsp # [] \<and>
   query_length zero_query_rec = 0 \<and>
   \<bar>identities scenario_hsp\<bar> < 2 ^ 53 \<and> \<bar>align_length scenario_hsp\<bar> < 2 ^ 53 \<and>
   outcome (tabulate_hsp_xml (scenario_B @ zero_query_rec # later_recs) 2) =
     Some ZeroDivisionError \<and>
   rows_of (tabulate_hsp_xml (scenario_B @ zero_query_rec # later_recs) 2) =
     rows_of (tabulate_hsp_xml scenario_B 2) @ []"
proof -
  let ?h = "scenario_hsp\<lparr>identities := 0, align_length := 0\<rparr>"
  have h1: "outcome (tabulate_hsp_xml scenario_B 2) = None"
    unfolding tabulate_scenario_B by simp
  have h2: "slice_to (alignments zero_length_rec) 2 =
      [scenario_aln ''strain_4''] @ zero_length_aln # []"
    by (simp add: zero_length_rec_def slice_to_def)
  have h3: "map (loop_body zero_length_rec) [scenario_aln ''strain_4''] =
      map Inr [scenario_row ''contig_2'' ''strain_4'']"
    by (simp add: zero_length_rec_def loop_body_scenario)
  have h4: "hsps zero_length_aln = ?h # []" by (simp add: zero_length_aln_def)
  have h5: "align_length ?h = 0" by simp
  have h5': "align_length ?h = 0 \<or> query_length zero_length_rec = 0" using h5 by simp
  have h6: "\<bar>identities ?h\<bar> < 2 ^ 53" by simp
  have h7: "\<bar>align_length ?h\<bar> < 2 ^ 53" by simp
  have q2: "slice_to (alignments zero_query_rec) 2 = [] @ scenario_aln ''strain_4'' # []"
    by (simp add: zero_query_rec_def slice_to_def)
  have q3: "map (loop_body zero_query_rec) [] = map Inr []" by simp
  have q4: "hsps (scenario_aln ''strain_4'') = scenario_hsp # []" by (simp add: scenario_aln_def)
  have q5: "query_length zero_query_rec = 0" by (simp add: zero_query_rec_def)
  have q5': "align_length scenario_hsp = 0 \<or> query_length zero_query_rec = 0" using q5 by simp
  have q6: "\<bar>identities scenario_hsp\<bar> < 2 ^ 53" "\<bar>align_length scenario_hsp\<bar> < 2 ^ 53"
    by (simp_all add: scenario_hsp_def)
  from zero_length_raises [OF h1 h2 h3 h4 h5', of later_recs]
    zero_length_raises [OF h1 q2 q3 q4 q5', of later_recs]
    h1 h2 h3 h4 h5 h6 h7 q2 q4 q5 q6
  show ?thesis by blast
qed

text \<open>
  C3 as stated fails for a negative alignment length: nothing is raised and a row is
  emitted, with a negative identity percentage.
\<close>

theorem negative_length_no_error:
  "hsps negative_length_aln = [scenario_hsp\<lparr>align_length := - 100\<rparr>] \<and>
   align_length (scenario_hsp\<lparr>align_length := - 100\<rparr>) = - 100 \<and>
   alignments negative_length_rec = [negative_length_aln] \<and>
   rows_of (tabulate_hsp_xml [negative_length_rec] 2) = [negative_length_row] \<and>
   outcome (tabulate_hsp_xml [negative_length_rec] 2) = None"
  unfolding tabulate_negative_length_rec
  by (simp add: negative_length_aln_def negative_length_rec_def)


text \<open>
  C4 (amended). The report is the header line followed by one line per emitted row, in
  the order of emission, each written by \<^verbatim>\<open>writerow\<close>. The header line is the 13 column
  names joined by tabs and ended by \<^verbatim>\<open>\r\n\<close>, and splitting it at the tabs gives the
  names back. Without rows the file holds the header line only. For a row whose query
  and strain names hold no tab, double quote, carriage return or line feed (the text of
  a float holding none, as Python's does), no field is quoted: the line is the 13 fields
  joined by tabs, the two names and the numbers as \<^verbatim>\<open>str\<close> writes them, and splitting
  it at the tabs gives these 13 fields back.
\<close>

theorem report_round_trip:
  "fst (blast_report repr_float fs reportpath result n) reportpath =
     Some (writerow headers @
       concat (map (\<lambda>row. writerow (map (str_cell repr_float) (cells_of_row row)))
         (rows_of (tabulate_hsp_xml result n)))) \<and>
   writerow headers = join tab headers @ lineterminator \<and>
   headers =
     [''Query'', ''Matching Strain'', ''Query Coverage'', ''Percent ID'', ''Identities'',
      ''Alignment Length'', ''Query Start'', ''Query End'', ''Subject Start'',
      ''Subject End'', ''Query Length'', ''Strain Length'', ''e-value''] \<and>
   length headers = 13 \<and> split_on tab (join tab headers) = headers \<and>
   (rows_of (tabulate_hsp_xml result n) = [] \<longrightarrow>
      fst (blast_report repr_float fs reportpath result n) reportpath =
        Some (join tab headers @ lineterminator)) \<and>
   ((\<forall>x. \<not> needs_quotes (repr_float x)) \<longrightarrow>
      (\<forall>row\<in>set (rows_of (tabulate_hsp_xml result n)).
         \<not> needs_quotes (fst row) \<and> \<not> needs_quotes (fst (snd row)) \<longrightarrow>
           writerow (map (str_cell repr_float) (cells_of_row row)) =
             join tab (map (str_cell repr_float) (cells_of_row row)) @ lineterminator \<and>
           length (map (str_cell repr_float) (cells_of_row row)) = 13 \<and>
           split_on tab (join tab (map (str_cell repr_float) (cells_of_row row))) =
             map (str_cell repr_float) (cells_of_row row)))"
proof -
  let ?rows = "rows_of (tabulate_hsp_xml result n)"
  let ?strs = "\<lambda>row. map (str_cell repr_float) (cells_of_row row)"
  have content: "fst (blast_report repr_float fs reportpath result n) reportpath =
      Some (writerow headers @ concat (map (\<lambda>row. writerow (?strs row)) ?rows))"
    by (simp add: blast_report_eq)
  have hdr: "writerow headers = join tab headers @ lineterminator"
    by (rule writerow_plain) (simp_all add: length_headers headers_plain)
  have names: "headers =
     [''Query'', ''Matching Strain'', ''Query Coverage'', ''Percent ID'', ''Identities'',
      ''Alignment Length'', ''Query Start'', ''Query End'', ''Subject Start'',
      ''Subject End'', ''Query Length'', ''Strain Length'', ''e-value'']"
    by (simp add: headers_def)
  have split_hdr: "split_on tab (join tab headers) = headers"
  proof (rule split_on_join)
    show "headers \<noteq> []" by (simp add: headers_def)
    show "\<forall>s\<in>set headers. tab \<notin> set s"
      using headers_plain by (blast dest: needs_quotes_tab)
  qed
  have empty: "fst (blast_report repr_float fs reportpath result n) reportpath =
      Some (join tab headers @ lineterminator)" if "?rows = []"
    using content hdr that by simp
  have row: "writerow (?strs row) = join tab (?strs row) @ lineterminator \<and>
      length (?strs row) = 13 \<and> split_on tab (join tab (?strs row)) = ?strs row"
    if rp: "\<forall>x. \<not> needs_quotes (repr_float x)"
      and q: "\<not> needs_quotes (fst row)" and s: "\<not> needs_quotes (fst (snd row))" for row
  proof -
    have plain: "\<forall>s\<in>set (?strs row). \<not> needs_quotes s"
      using rp q s by (rule cells_plain)
    have line: "writerow (?strs row) = join tab (?strs row) @ lineterminator"
      by (rule writerow_plain) (simp_all add: length_cells_of_row plain)
    have "split_on tab (join tab (?strs row)) = ?strs row"
    proof (rule split_on_join)
      show "?strs row \<noteq> []" using length_cells_of_row [of row] by auto
      show "\<forall>s\<in>set (?strs row). tab \<notin> set s"
        using plain by (blast dest: needs_quotes_tab)
    qed
    with line show ?thesis by (simp add: length_cells_of_row)
  qed
  show ?thesis
  proof (intro conjI impI ballI)
    show "fst (blast_report repr_float fs reportpath result n) reportpath =
        Some (writerow headers @ concat (map (\<lambda>row. writerow (?strs row)) ?rows))"
      by (rule content)
    show "writerow headers = join tab headers @ lineterminator" by (rule hdr)
    show "headers =
       [''Query'', ''Matching Strain'', ''Query Coverage'', ''Percent ID'', ''Identities'',
        ''Alignment Length'', ''Query Start'', ''Query End'', ''Subject Start'',
        ''Subject End'', ''Query Length'', ''Strain Length'', ''e-value'']"
      by (rule names)
    show "length headers = 13" by (rule length_headers)
    show "split_on tab (join tab headers) = headers" by (rule split_hdr)
    show "fst (blast_report repr_float fs reportpath result n) reportpath =
        Some (join tab headers @ lineterminator)" if "?rows = []"
      using that by (rule empty)
  next
    fix row :: metric_row
    assume "\<forall>x. \<not> needs_quotes (repr_float x)"
      and "\<not> needs_quotes (fst row) \<and> \<not> needs_quotes (fst (snd row))"
    then have all: "writerow (?strs row) = join tab (?strs row) @ lineterminator \<and>
        length (?strs row) = 13 \<and> split_on tab (join tab (?strs row)) = ?strs row"
      by (intro row) simp_all
    from all show "writerow (?strs row) = join tab (?strs row) @ lineterminator" by simp
    from all show "length (?strs row) = 13" by simp
    from all show "split_on tab (join tab (?strs row)) = ?strs row" by simp
  qed
qed

theorem report_round_trip_witness:
  "fst (blast_report repr_float_whole Map.empty ''TopBLASTHits.txt'' scenario_B 2)
       ''TopBLASTHits.txt'' =
     Some (writerow headers @
       concat (map (\<lambda>row. writerow (map (str_cell repr_float_whole) (cells_of_row row)))
         (rows_of (tabulate_hsp_xml scenario_B 2)))) \<and>
   rows_of (tabulate_hsp_xml scenario_B 0) = [] \<and>
   fst (blast_report repr_float_whole Map.empty ''TopBLASTHits.txt'' scenario_B 0)
       ''TopBLASTHits.txt'' =
     Some (join tab headers @ lineterminator) \<and>
   (\<forall>x. \<not> needs_quotes (repr_float_whole x)) \<and>
   scenario_row ''contig_1'' ''strain_2'' \<in> set (rows_of (tabulate_hsp_xml scenario_B 2)) \<and>
   \<not> needs_quotes (fst (scenario_row ''contig_1'' ''strain_2'')) \<and>
   \<not> needs_quotes (fst (snd (scenario_row ''contig_1'' ''strain_2''))) \<and>
   writerow (map (str_cell repr_float_whole) (cells_of_row (scenario_row ''contig_1'' ''strain_2''))) =
     join tab (map (str_cell repr_float_whole) (cells_of_row (scenario_row ''contig_1'' ''strain_2'')))
       @ lineterminator \<and>
   length (map (str_cell repr_float_whole) (cells_of_row (scenario_row ''contig_1'' ''strain_2''))) =
     13 \<and>
   split_on tab
       (join tab (map (str_cell repr_float_whole) (cells_of_row (scenario_row ''contig_1'' ''strain_2'')))) =
     map (str_cell repr_float_whole) (cells_of_row (scenario_row ''contig_1'' ''strain_2'')) \<and>
   map (str_cell repr_float_whole) (cells_of_row (scenario_row ''contig_1'' ''strain_2'')) =
     [''contig_1'', ''strain_2'', ''100.0'', ''95.0'', ''95'', ''100'', ''1'', ''100'', ''1'', ''100'',
      ''100'', ''2341'', ''0.0'']"
proof -
  have h1: "\<forall>x. \<not> needs_quotes (repr_float_whole x)"
    by (simp add: repr_float_whole_plain)
  have h2: "scenario_row ''contig_1'' ''strain_2'' \<in> set (rows_of (tabulate_hsp_xml scenario_B 2))"
    unfolding tabulate_scenario_B by simp
  have h3: "\<not> needs_quotes (fst (scenario_row ''contig_1'' ''strain_2''))"
    "\<not> needs_quotes (fst (snd (scenario_row ''contig_1'' ''strain_2'')))"
    by (simp_all add: scenario_row_def needs_quotes_def tab_def dquote_def lineterminator_def)
  have h4: "rows_of (tabulate_hsp_xml scenario_B 0) = []"
    unfolding tabulate_scenario_B_zero by simp
  have fields: "map (str_cell repr_float_whole) (cells_of_row (scenario_row ''contig_1'' ''strain_2'')) =
     [''contig_1'', ''strain_2'', ''100.0'', ''95.0'', ''95'', ''100'', ''1'', ''100'', ''1'', ''100'',
      ''100'', ''2341'', ''0.0'']"
    by (simp add: scenario_row_def cells_of_row_def repr_float_whole_def str_int_examples)
  note two = report_round_trip [of repr_float_whole Map.empty "''TopBLASTHits.txt''" scenario_B 2]
  note none = report_round_trip [of repr_float_whole Map.empty "''TopBLASTHits.txt''" scenario_B 0]
  from h1 h2 h3 h4 fields two none show ?thesis by blast
qed

text \<open>
  C4 as stated fails for a strain name with a tab: the writer quotes the field, and
  splitting the line at the tabs gives 14 pieces, none of which is the name.
\<close>

theorem tab_in_name_breaks_round_trip:
  "rows_of (tabulate_hsp_xml [tab_rec] 2) = [scenario_row ''contig_1'' tab_name] \<and>
   fst (blast_report repr_float_whole Map.empty ''TopBLASTHits.txt'' [tab_rec] 2)
       ''TopBLASTHits.txt'' =
     Some (writerow headers @ join tab tab_row_pieces @ lineterminator) \<and>
   split_on tab (join tab tab_row_pieces) = tab_row_pieces \<and>
   length tab_row_pieces = 14 \<and>
   length (cells_of_row (scenario_row ''contig_1'' tab_name)) = 13 \<and>
   tab_name \<notin> set tab_row_pieces"
proof -
  have rows: "rows_of (tabulate_hsp_xml [tab_rec] 2) = [scenario_row ''contig_1'' tab_name]"
    unfolding tabulate_tab_rec by simp
  have content: "fst (blast_report repr_float_whole Map.empty ''TopBLASTHits.txt'' [tab_rec] 2)
       ''TopBLASTHits.txt'' =
     Some (writerow headers @ join tab tab_row_pieces @ lineterminator)"
    by (simp only: blast_report_eq rows) (simp add: tab_row_line)
  have split: "split_on tab (join tab tab_row_pieces) = tab_row_pieces"
    by (rule split_on_join) (simp_all add: tab_row_pieces_def tab_def dquote_def)
  have other: "length tab_row_pieces = 14" "tab_name \<notin> set tab_row_pieces"
    by (simp_all add: tab_row_pieces_def tab_name_def tab_def dquote_def)
  from rows content split other show ?thesis
    by (simp add: length_cells_of_row)
qed


text \<open>
  C5 (amended). When the first HSP of an alignment has \<open>0 \<le> identities \<le> align_length\<close>,
  \<open>1 \<le> align_length\<close> and \<open>100 * align_length < 2^53\<close> (so that the product
  \<^verbatim>\<open>100. * identities\<close> is exact in a double), the identity percentage of the row lies
  between 0 and 100, and it is exactly 100 when the two numbers are equal.
\<close>

theorem identity_perc_range:
  assumes "loop_body res aln = Inr row" and "hsps aln = h # hs"
    and "0 \<le> identities h" and "identities h \<le> align_length h" and "1 \<le> align_length h"
    and "100 * align_length h < 2 ^ 53"
  shows "float_le (Finite 0) (row_identity_perc row) \<and>
         float_le (row_identity_perc row) (Finite 100) \<and>
         (identities h = align_length h \<longrightarrow> row_identity_perc row = Finite 100)"
proof -
  from loop_body_InrD [OF assms(1)] assms(2) obtain t1 ip where
    t1: "float_mul_int (Finite 100) (identities h) = Inr t1" and
    ip: "float_truediv_int t1 (align_length h) = Inr ip" and
    row: "row_identity_perc row = ip"
    by (auto simp: row_identity_perc_def)
  have small: "\<bar>identities h\<bar> < 2 ^ 53" using assms(3,4,6) by simp
  have prod: "100 * identities h < 2 ^ 53" using assms(4,6) by simp
  have "float_mul (Finite (of_int 100)) (Finite (of_int (identities h))) =
      Finite (of_int (100 * identities h))"
    using assms(3) prod by (intro float_mul_exact) simp_all
  with t1 float_of_int_exact [OF small] have "t1 = Finite (of_int (100 * identities h))"
    by (simp add: float_mul_int_def)
  with ip have "float_truediv_int (Finite (of_int (100 * identities h))) (align_length h) = Inr ip"
    by simp
  from float_truediv_int_range [OF assms(3,4,5,6) this] obtain m where
    "ip = Finite m" "0 \<le> m" "m \<le> 100" "identities h = align_length h \<longrightarrow> m = 100"
    by blast
  then show ?thesis unfolding row by simp
qed

theorem identity_perc_range_witness:
  "loop_body (scenario_rec ''contig_1'' [perfect_aln]) perfect_aln =
     Inr (''contig_1'', ''strain_1'', Finite 100, Finite 100, 100, 100, 1, 100, 1, 100, 100, 2341,
          Finite 0) \<and>
   hsps perfect_aln = scenario_hsp\<lparr>identities := 100\<rparr> # [] \<and>
   0 \<le> identities (scenario_hsp\<lparr>identities := 100\<rparr>) \<and>
   identities (scenario_hsp\<lparr>identities := 100\<rparr>) \<le> align_length (scenario_hsp\<lparr>identities := 100\<rparr>) \<and>
   1 \<le> align_length (scenario_hsp\<lparr>identities := 100\<rparr>) \<and>
   100 * align_length (scenario_hsp\<lparr>identities := 100\<rparr>) < 2 ^ 53 \<and>
   identities (scenario_hsp\<lparr>identities := 100\<rparr>) = align_length (scenario_hsp\<lparr>identities := 100\<rparr>) \<and>
   float_le (Finite 0)
     (row_identity_perc (''contig_1'', ''strain_1'', Finite 100, Finite 100, 100, 100, 1, 100, 1,
        100, 100, 2341, Finite 0)) \<and>
   float_le
     (row_identity_perc (''contig_1'', ''strain_1'', Finite 100, Finite 100, 100, 100, 1, 100, 1,
        100, 100, 2341, Finite 0)) (Finite 100) \<and>
   row_identity_perc (''contig_1'', ''strain_1'', Finite 100, Finite 100, 100, 100, 1, 100, 1,
        100, 100, 2341, Finite 0) = Finite 100"
proof -
  let ?h = "scenario_hsp\<lparr>identities := 100\<rparr>"
  have h1: "loop_body (scenario_rec ''contig_1'' [perfect_aln]) perfect_aln =
     Inr (''contig_1'', ''strain_1'', Finite 100, Finite 100, 100, 100, 1, 100, 1, 100, 100, 2341,
          Finite 0)"
    by (rule loop_body_perfect)
  have h2: "hsps perfect_aln = ?h # []" by (simp add: perfect_aln_def)
  have h3: "0 \<le> identities ?h" by (simp add: scenario_hsp_def)
  have h4: "identities ?h \<le> align_length ?h" by (simp add: scenario_hsp_def)
  have h5: "1 \<le> align_length ?h" by (simp add: scenario_hsp_def)
  have h6: "100 * align_length ?h < 2 ^ 53" by (simp add: scenario_hsp_def)
  have h7: "identities ?h = align_length ?h" by (simp add: scenario_hsp_def)
  from identity_perc_range [OF h1 h2 h3 h4 h5 h6] h1 h2 h3 h4 h5 h6 h7 show ?thesis by blast
qed

text \<open>
  C5 as stated, without the bound, fails: for \<open>identities = align_length = 877329965204690300\<close>
  the product \<^verbatim>\<open>100. * identities\<close> is not exact, and the quotient is the double next
  above 100.
\<close>

theorem identity_perc_above_100:
  "identities huge_hsp = align_length huge_hsp \<and> 1 \<le> align_length huge_hsp \<and>
   map row_identity_perc (rows_of (tabulate_hsp_xml [huge_rec] 10)) =
     [Finite (7036874417766401 / 70368744177664)] \<and>
   \<not> float_le (Finite (7036874417766401 / 70368744177664)) (Finite 100)"
  unfolding tabulate_huge_rec
  by (simp add: huge_hsp_def row_identity_perc_def)


text \<open>
  C6. The coverage of every emitted row is a float that is not below zero, whatever the
  signs of the lengths: it is the absolute value of a quotient that is never NaN.
\<close>

theorem query_cov_nonneg:
  "\<forall>row\<in>set (rows_of (tabulate_hsp_xml result n)). float_le (Finite 0) (row_query_cov row)"
proof
  fix row
  assume "row \<in> set (rows_of (tabulate_hsp_xml result n))"
  from emitted_rowD [OF this] obtain res aln where "loop_body res aln = Inr row" by blast
  then show "float_le (Finite 0) (row_query_cov row)" by (rule loop_body_query_cov)
qed

theorem query_cov_nonneg_witness:
  "negative_length_row \<in> set (rows_of (tabulate_hsp_xml [negative_length_rec] 2)) \<and>
   float_le (Finite 0) (row_query_cov negative_length_row)"
proof -
  have h: "negative_length_row \<in> set (rows_of (tabulate_hsp_xml [negative_length_rec] 2))"
    unfolding tabulate_negative_length_rec by simp
  from query_cov_nonneg [of "[negative_length_rec]" 2] h show ?thesis by blast
qed


text \<open>
  C7. When the records before \<open>res\<close> raise nothing and the run fails inside \<open>res\<close>, the
  rows emitted are the rows of a run over the earlier records alone, followed by the rows
  of the alignments of \<open>res\<close> before the failing one, and the run ends with the exception.
  The report then holds the header and one line for each of these rows, in this order:
  it starts with the whole report of the earlier records, and what was written before the
  exception stays in the file.
\<close>

theorem rows_before_failure_kept:
  assumes "outcome (tabulate_hsp_xml earlier n) = None"
    and "outcome (tabulate_hsp_xml [res] n) = Some e"
  shows "rows_of (tabulate_hsp_xml (earlier @ res # later) n) =
           rows_of (tabulate_hsp_xml earlier n) @ rows_of (tabulate_hsp_xml [res] n) \<and>
         outcome (tabulate_hsp_xml (earlier @ res # later) n) = Some e \<and>
         (\<exists>pre aln post.
            slice_to (alignments res) n = pre @ aln # post \<and> loop_body res aln = Inl e \<and>
            map (loop_body res) pre = map Inr (rows_of (tabulate_hsp_xml [res] n))) \<and>
         blast_report repr_float fs reportpath earlier n =
           (fs(reportpath \<mapsto> writerow headers @
              concat (map (\<lambda>row. writerow (map (str_cell repr_float) (cells_of_row row)))
                (rows_of (tabulate_hsp_xml earlier n)))),
            None) \<and>
         blast_report repr_float fs reportpath (earlier @ res # later) n =
           (fs(reportpath \<mapsto> writerow headers @
              concat (map (\<lambda>row. writerow (map (str_cell repr_float) (cells_of_row row)))
                (rows_of (tabulate_hsp_xml earlier n))) @
              concat (map (\<lambda>row. writerow (map (str_cell repr_float) (cells_of_row row)))
                (rows_of (tabulate_hsp_xml [res] n)))),
            Some e)"
proof -
  have split: "earlier @ res # later = earlier @ ([res] @ later)" by simp
  have one_rows: "rows_of (tabulate_hsp_xml ([res] @ later) n) = rows_of (tabulate_hsp_xml [res] n)"
    using assms(2) by (simp only: rows_of_tabulate_append) simp
  have one_out: "outcome (tabulate_hsp_xml ([res] @ later) n) = Some e"
    using assms(2) by (simp only: outcome_tabulate_append) simp
  have rows: "rows_of (tabulate_hsp_xml (earlier @ res # later) n) =
      rows_of (tabulate_hsp_xml earlier n) @ rows_of (tabulate_hsp_xml [res] n)"
    unfolding split using assms(1) one_rows by (simp only: rows_of_tabulate_append) simp
  have out: "outcome (tabulate_hsp_xml (earlier @ res # later) n) = Some e"
    unfolding split using assms(1) one_out by (simp only: outcome_tabulate_append) simp
  from assms(2) have "outcome (for_aln res (slice_to (alignments res) n) StopIteration) = Some e"
    by simp
  from for_aln_failureD [OF this]
  have failing: "\<exists>pre aln post.
      slice_to (alignments res) n = pre @ aln # post \<and> loop_body res aln = Inl e \<and>
      map (loop_body res) pre = map Inr (rows_of (tabulate_hsp_xml [res] n))"
    by simp
  have before: "blast_report repr_float fs reportpath earlier n =
      (fs(reportpath \<mapsto> writerow headers @
         concat (map (\<lambda>row. writerow (map (str_cell repr_float) (cells_of_row row)))
           (rows_of (tabulate_hsp_xml earlier n)))),
       None)"
    by (simp only: blast_report_eq assms(1))
  have report: "blast_report repr_float fs reportpath (earlier @ res # later) n =
      (fs(reportpath \<mapsto> writerow headers @
         concat (map (\<lambda>row. writerow (map (str_cell repr_float) (cells_of_row row)))
           (rows_of (tabulate_hsp_xml earlier n))) @
         concat (map (\<lambda>row. writerow (map (str_cell repr_float) (cells_of_row row)))
           (rows_of (tabulate_hsp_xml [res] n)))),
       Some e)"
    by (simp only: blast_report_eq rows out) simp
  from rows out failing before report show ?thesis by blast
qed

theorem rows_before_failure_kept_witness:
  "outcome (tabulate_hsp_xml scenario_B 2) = None \<and>
   outcome (tabulate_hsp_xml [zero_length_rec] 2) = Some ZeroDivisionError \<and>
   rows_of (tabulate_hsp_xml (scenario_B @ zero_length_rec # later_recs) 2) =
     rows_of (tabulate_hsp_xml scenario_B 2) @ rows_of (tabulate_hsp_xml [zero_length_rec] 2) \<and>
   rows_of (tabulate_hsp_xml (scenario_B @ zero_length_rec # later_recs) 2) =
     [scenario_row ''contig_1'' ''strain_1'', scenario_row ''contig_1'' ''strain_2'',
      scenario_row ''contig_2'' ''strain_4''] \<and>
   outcome (tabulate_hsp_xml (scenario_B @ zero_length_rec # later_recs) 2) =
     Some ZeroDivisionError \<and>
   blast_report repr_float_whole Map.empty ''TopBLASTHits.txt''
       (scenario_B @ zero_length_rec # later_recs) 2 =
     (Map.empty(''TopBLASTHits.txt'' \<mapsto> writerow headers @
        concat (map (\<lambda>row. writerow (map (str_cell repr_float_whole) (cells_of_row row)))
          (rows_of (tabulate_hsp_xml scenario_B 2))) @
        concat (map (\<lambda>row. writerow (map (str_cell repr_float_whole) (cells_of_row row)))
          (rows_of (tabulate_hsp_xml [zero_length_rec] 2)))),
      Some ZeroDivisionError)"
proof -
  have h1: "outcome (tabulate_hsp_xml scenario_B 2) = None"
    unfolding tabulate_scenario_B by simp
  have h2: "outcome (tabulate_hsp_xml [zero_length_rec] 2) = Some ZeroDivisionError"
    unfolding tabulate_zero_length_rec by simp
  have r: "rows_of (tabulate_hsp_xml scenario_B 2) @ rows_of (tabulate_hsp_xml [zero_length_rec] 2) =
     [scenario_row ''contig_1'' ''strain_1'', scenario_row ''contig_1'' ''strain_2'',
      scenario_row ''contig_2'' ''strain_4'']"
    unfolding tabulate_scenario_B tabulate_zero_length_rec by simp
  note inst = rows_before_failure_kept [OF h1 h2, of later_recs repr_float_whole Map.empty
      "''TopBLASTHits.txt''"]
  from inst h1 h2 r show ?thesis by simp
qed


text \<open>
  C8. Two runs of the generator on the same records and the same limit receive the same
  rows in the same order and end in the same way: the generator reads nothing but its two
  arguments.
\<close>

theorem tabulate_deterministic:
  assumes "iterates (tabulate_hsp_xml result n) rows1 r1"
    and "iterates (tabulate_hsp_xml result n) rows2 r2"
  shows "rows1 = rows2 \<and> r1 = r2"
  using assms by (simp add: iterates_iff)

theorem tabulate_deterministic_witness:
  "iterates (tabulate_hsp_xml (scenario_B @ [zero_length_rec]) 2)
     [scenario_row ''contig_1'' ''strain_1'', scenario_row ''contig_1'' ''strain_2'',
      scenario_row ''contig_2'' ''strain_4''] (Some ZeroDivisionError) \<and>
   iterates (tabulate_hsp_xml (scenario_B @ [zero_length_rec]) 2)
     (rows_of (tabulate_hsp_xml scenario_B 2) @ rows_of (tabulate_hsp_xml [zero_length_rec] 2))
     (outcome (tabulate_hsp_xml [zero_length_rec] 2)) \<and>
   [scenario_row ''contig_1'' ''strain_1'', scenario_row ''contig_1'' ''strain_2'',
    scenario_row ''contig_2'' ''strain_4''] =
     rows_of (tabulate_hsp_xml scenario_B 2) @ rows_of (tabulate_hsp_xml [zero_length_rec] 2) \<and>
   Some ZeroDivisionError = outcome (tabulate_hsp_xml [zero_length_rec] 2)"
proof -
  have run: "tabulate_hsp_xml (scenario_B @ [zero_length_rec]) 2 =
      Yield (scenario_row ''contig_1'' ''strain_1'')
        (Yield (scenario_row ''contig_1'' ''strain_2'')
          (Yield (scenario_row ''contig_2'' ''strain_4'') (Raise ZeroDivisionError)))"
    by (simp add: scenario_B_def zero_length_rec_def slice_to_def loop_body_scenario
        loop_body_zero_length)
  have h1: "iterates (tabulate_hsp_xml (scenario_B @ [zero_length_rec]) 2)
     [scenario_row ''contig_1'' ''strain_1'', scenario_row ''contig_1'' ''strain_2'',
      scenario_row ''contig_2'' ''strain_4''] (Some ZeroDivisionError)"
    unfolding run by (intro iterates.intros)
  have h2: "iterates (tabulate_hsp_xml (scenario_B @ [zero_length_rec]) 2)
     (rows_of (tabulate_hsp_xml scenario_B 2) @ rows_of (tabulate_hsp_xml [zero_length_rec] 2))
     (outcome (tabulate_hsp_xml [zero_length_rec] 2))"
    unfolding run tabulate_scenario_B tabulate_zero_length_rec
    by (simp add: iterates_iff)
  from h1 h2 tabulate_deterministic [OF h1 h2] show ?thesis by blast
qed



text \<open>
  C9. For a negative limit \<open>n = - m\<close>, the slice drops the last \<open>m\<close> alignments of each
  record, and the limit itself raises nothing: a run that raises no exception emits, for a
  record with \<open>k\<close> alignments, the rows of its first \<open>k - m\<close> alignments (none when
  \<open>k \<le> m\<close>; the subtraction on natural numbers stops at 0), in order; and an exception
  that ends the run is one that the loop body raised on one of these alignments.
\<close>

theorem tabulate_negative_limit:
  assumes "n < 0"
  shows "(outcome (tabulate_hsp_xml result n) = None \<longrightarrow>
            map Inr (rows_of (tabulate_hsp_xml result n)) =
              concat (map (\<lambda>res. map (loop_body res)
                (take (length (alignments res) - nat (- n)) (alignments res))) result) \<and>
            length (rows_of (tabulate_hsp_xml result n)) =
              sum_list (map (\<lambda>res. length (alignments res) - nat (- n)) result)) \<and>
         (\<forall>e. outcome (tabulate_hsp_xml result n) = Some e \<longrightarrow>
            (\<exists>res\<in>set result.
               \<exists>aln\<in>set (take (length (alignments res) - nat (- n)) (alignments res)).
                 loop_body res aln = Inl e))"
proof (intro conjI impI allI)
  assume ok: "outcome (tabulate_hsp_xml result n) = None"
  show eq: "map Inr (rows_of (tabulate_hsp_xml result n)) =
      concat (map (\<lambda>res. map (loop_body res)
        (take (length (alignments res) - nat (- n)) (alignments res))) result)"
    using tabulate_success [OF ok] assms by (simp add: slice_to_negative)
  have "length (rows_of (tabulate_hsp_xml result n)) =
      length (map Inr (rows_of (tabulate_hsp_xml result n)) :: (error + metric_row) list)"
    by simp
  also have "\<dots> = sum_list (map (\<lambda>res. length (alignments res) - nat (- n)) result)"
    unfolding eq by (simp add: length_concat comp_def)
  finally show "length (rows_of (tabulate_hsp_xml result n)) =
      sum_list (map (\<lambda>res. length (alignments res) - nat (- n)) result)" .
next
  fix e
  assume "outcome (tabulate_hsp_xml result n) = Some e"
  from raised_errorD [OF this] assms
  show "\<exists>res\<in>set result.
      \<exists>aln\<in>set (take (length (alignments res) - nat (- n)) (alignments res)).
        loop_body res aln = Inl e"
    by (simp add: slice_to_negative)
qed

theorem tabulate_negative_limit_witness:
  "(- 1 :: int) < 0 \<and> outcome (tabulate_hsp_xml scenario_B (- 1)) = None \<and>
   map Inr (rows_of (tabulate_hsp_xml scenario_B (- 1))) =
     concat (map (\<lambda>res. map (loop_body res)
       (take (length (alignments res) - nat (- (- 1))) (alignments res))) scenario_B) \<and>
   length (rows_of (tabulate_hsp_xml scenario_B (- 1))) =
     sum_list (map (\<lambda>res. length (alignments res) - nat (- (- 1))) scenario_B) \<and>
   rows_of (tabulate_hsp_xml scenario_B (- 1)) =
     [scenario_row ''contig_1'' ''strain_1'', scenario_row ''contig_1'' ''strain_2''] \<and>
   outcome (tabulate_hsp_xml [zero_length_rec] (- 1)) = Some ZeroDivisionError \<and>
   (\<exists>res\<in>set [zero_length_rec].
      \<exists>aln\<in>set (take (length (alignments res) - nat (- (- 1))) (alignments res)).
        loop_body res aln = Inl ZeroDivisionError)"
proof -
  have n: "(- 1 :: int) < 0" by simp
  have h: "outcome (tabulate_hsp_xml scenario_B (- 1)) = None"
    unfolding tabulate_scenario_B_negative by simp
  have r: "rows_of (tabulate_hsp_xml scenario_B (- 1)) =
     [scenario_row ''contig_1'' ''strain_1'', scenario_row ''contig_1'' ''strain_2'']"
    unfolding tabulate_scenario_B_negative by simp
  have f: "outcome (tabulate_hsp_xml [zero_length_rec] (- 1)) = Some ZeroDivisionError"
    by (simp add: zero_length_rec_def slice_to_def loop_body_scenario loop_body_zero_length)
  from n h r f tabulate_negative_limit [OF n, of scenario_B]
    tabulate_negative_limit [OF n, of "[zero_length_rec]"]
  show ?thesis by blast
qed


text \<open>
  C10. With an empty list of HSPs, \<^verbatim>\<open>aln.hsps[0]\<close> raises \<^verbatim>\<open>IndexError\<close>: when the
  records before \<open>res\<close> and the sliced alignments of \<open>res\<close> before \<open>aln\<close> raise nothing,
  the run ends with \<^verbatim>\<open>IndexError\<close> at \<open>aln\<close>, after the rows of the earlier alignments and
  without a row for \<open>aln\<close>. When every sliced alignment has an HSP, no run ends with
  \<^verbatim>\<open>IndexError\<close>.
\<close>

theorem empty_hsps_index_error:
  "(outcome (tabulate_hsp_xml earlier n) = None \<and>
    slice_to (alignments res) n = pre @ aln # post \<and>
    map (loop_body res) pre = map Inr rows \<and> hsps aln = [] \<longrightarrow>
      outcome (tabulate_hsp_xml (earlier @ res # later) n) = Some IndexError \<and>
      rows_of (tabulate_hsp_xml (earlier @ res # later) n) =
        rows_of (tabulate_hsp_xml earlier n) @ rows) \<and>
   ((\<forall>r\<in>set result. \<forall>a\<in>set (slice_to (alignments r) n). hsps a \<noteq> []) \<longrightarrow>
      outcome (tabulate_hsp_xml result n) \<noteq> Some IndexError)"
proof (intro conjI impI)
  assume a: "outcome (tabulate_hsp_xml earlier n) = None \<and>
    slice_to (alignments res) n = pre @ aln # post \<and>
    map (loop_body res) pre = map Inr rows \<and> hsps aln = []"
  then have body: "loop_body res aln = Inl IndexError" by (simp add: loop_body_IndexError)
  from a have pre: "map (loop_body res) pre = map Inr rows" by simp
  from for_aln_failure [OF pre body, of post "tabulate_hsp_xml later n"] a
  have one: "rows_of (tabulate_hsp_xml (res # later) n) = rows"
    "outcome (tabulate_hsp_xml (res # later) n) = Some IndexError"
    by simp_all
  from a one show "outcome (tabulate_hsp_xml (earlier @ res # later) n) = Some IndexError"
    by (simp add: outcome_tabulate_append)
  from a one show "rows_of (tabulate_hsp_xml (earlier @ res # later) n) =
      rows_of (tabulate_hsp_xml earlier n) @ rows"
    by (simp add: rows_of_tabulate_append)
next
  assume all: "\<forall>r\<in>set result. \<forall>a\<in>set (slice_to (alignments r) n). hsps a \<noteq> []"
  show "outcome (tabulate_hsp_xml result n) \<noteq> Some IndexError"
  proof
    assume "outcome (tabulate_hsp_xml result n) = Some IndexError"
    from raised_errorD [OF this] obtain r a where
      "r \<in> set result" "a \<in> set (slice_to (alignments r) n)" "loop_body r a = Inl IndexError"
      by blast
    moreover from this all have "hsps a \<noteq> []" by blast
    ultimately show False by (simp add: loop_body_IndexError)
  qed
qed

theorem empty_hsps_index_error_witness:
  "outcome (tabulate_hsp_xml scenario_B 2) = None \<and>
   slice_to (alignments no_hsp_rec) 2 = [scenario_aln ''strain_4''] @ no_hsp_aln # [] \<and>
   map (loop_body no_hsp_rec) [scenario_aln ''strain_4''] =
     map Inr [scenario_row ''contig_2'' ''strain_4''] \<and>
   hsps no_hsp_aln = [] \<and>
   outcome (tabulate_hsp_xml (scenario_B @ no_hsp_rec # later_recs) 2) = Some IndexError \<and>
   rows_of (tabulate_hsp_xml (scenario_B @ no_hsp_rec # later_recs) 2) =
     rows_of (tabulate_hsp_xml scenario_B 2) @ [scenario_row ''contig_2'' ''strain_4''] \<and>
   list_all (\<lambda>r. list_all (\<lambda>a. hsps a \<noteq> []) (slice_to (alignments r) 2)) scenario_B \<and>
   outcome (tabulate_hsp_xml scenario_B 2) \<noteq> Some IndexError"
proof -
  have h1: "outcome (tabulate_hsp_xml scenario_B 2) = None"
    unfolding tabulate_scenario_B by simp
  have h2: "slice_to (alignments no_hsp_rec) 2 = [scenario_aln ''strain_4''] @ no_hsp_aln # []"
    by (simp add: no_hsp_rec_def slice_to_def)
  have h3: "map (loop_body no_hsp_rec) [scenario_aln ''strain_4''] =
      map Inr [scenario_row ''contig_2'' ''strain_4'']"
    by (simp add: no_hsp_rec_def loop_body_scenario)
  have h4: "hsps no_hsp_aln = []" by (simp add: no_hsp_aln_def)
  have h5: "list_all (\<lambda>r. list_all (\<lambda>a. hsps a \<noteq> []) (slice_to (alignments r) 2)) scenario_B"
    by (simp add: scenario_B_def slice_to_def scenario_aln_def)
  then have h5': "\<forall>r\<in>set scenario_B. \<forall>a\<in>set (slice_to (alignments r) 2). hsps a \<noteq> []"
    by (simp add: list_all_iff)
  note inst = empty_hsps_index_error [where earlier = scenario_B and n = 2 and res = no_hsp_rec
      and pre = "[scenario_aln ''strain_4'']" and aln = no_hsp_aln and post = "[]"
      and rows = "[scenario_row ''contig_2'' ''strain_4'']" and later = later_recs
      and result = scenario_B]
  from inst h1 h2 h3 h4 h5 h5' show ?thesis by blast
qed

end
